theory Spec2Isabelle
  imports Complex_Main
begin

section \<open>JavaScript numbers\<close>

text \<open>
  A JavaScript \<^verbatim>\<open>number\<close> is an IEEE 754 double. The model keeps the three kinds of
  special value apart from the finite ones and follows IEEE 754 wherever a special value is
  involved (NaN is absorbing, comparisons with NaN are false, \<open>\<infinity> - \<infinity>\<close> and \<open>0 * \<infinity>\<close>
  are NaN, a nonzero finite value divided by zero is an infinity). A finite value is a real
  number. The operators \<open>+\<close>, \<open>-\<close>, \<open>*\<close> and \<open>/\<close> below are exact on finite values: they model
  neither rounding nor the overflow of a finite result to an infinity, and the sign of zero
  is not modelled (a zero is \<open>+0\<close>). In \<open>factorial\<close>, whose contract is about the exact value of
  a product, the product is \<open>times_double\<close>, which rounds to the nearest double.
\<close>

datatype number = NaN | PInf | NInf | Fin real

instantiation number :: "{plus, minus, uminus, times, inverse, abs, ord}"
begin

fun uminus_number :: "number \<Rightarrow> number" where
  "uminus_number NaN = NaN"
| "uminus_number PInf = NInf"
| "uminus_number NInf = PInf"
| "uminus_number (Fin a) = Fin (- a)"

fun plus_number :: "number \<Rightarrow> number \<Rightarrow> number" where
  "plus_number NaN y = NaN"
| "plus_number x NaN = NaN"
| "plus_number PInf NInf = NaN"
| "plus_number NInf PInf = NaN"
| "plus_number PInf y = PInf"
| "plus_number NInf y = NInf"
| "plus_number (Fin a) PInf = PInf"
| "plus_number (Fin a) NInf = NInf"
| "plus_number (Fin a) (Fin b) = Fin (a + b)"

definition minus_number :: "number \<Rightarrow> number \<Rightarrow> number" where
  "minus_number x y = x + (- y)"

definition sign_inf :: "real \<Rightarrow> number \<Rightarrow> number" where
  "sign_inf a i = (if a > 0 then i else if a < 0 then - i else NaN)"

fun times_number :: "number \<Rightarrow> number \<Rightarrow> number" where
  "times_number NaN y = NaN"
| "times_number x NaN = NaN"
| "times_number (Fin a) (Fin b) = Fin (a * b)"
| "times_number (Fin a) y = sign_inf a y"
| "times_number x (Fin b) = sign_inf b x"
| "times_number PInf y = y"
| "times_number NInf y = - y"

fun divide_number :: "number \<Rightarrow> number \<Rightarrow> number" where
  "divide_number NaN y = NaN"
| "divide_number x NaN = NaN"
| "divide_number (Fin a) (Fin b) = (if b = 0 then sign_inf a PInf else Fin (a / b))"
| "divide_number (Fin a) y = Fin 0"
| "divide_number x (Fin b) = (if b < 0 then - x else x)"
| "divide_number x y = NaN"

fun inverse_number :: "number \<Rightarrow> number" where
  "inverse_number NaN = NaN"
| "inverse_number (Fin b) = (if b = 0 then PInf else Fin (1 / b))"
| "inverse_number x = Fin 0"

fun abs_number :: "number \<Rightarrow> number" where
  "abs_number NaN = NaN"
| "abs_number PInf = PInf"
| "abs_number NInf = PInf"
| "abs_number (Fin a) = Fin \<bar>a\<bar>"

fun less_eq_number :: "number \<Rightarrow> number \<Rightarrow> bool" where
  "less_eq_number NaN y = False"
| "less_eq_number x NaN = False"
| "less_eq_number NInf y = True"
| "less_eq_number x PInf = True"
| "less_eq_number PInf y = False"
| "less_eq_number x NInf = False"
| "less_eq_number (Fin a) (Fin b) = (a \<le> b)"

fun less_number :: "number \<Rightarrow> number \<Rightarrow> bool" where
  "less_number NaN y = False"
| "less_number x NaN = False"
| "less_number x NInf = False"
| "less_number PInf y = False"
| "less_number NInf y = True"
| "less_number x PInf = True"
| "less_number (Fin a) (Fin b) = (a < b)"

instance ..

end

text \<open>\<^verbatim>\<open>===\<close> on numbers: NaN is not equal to itself.\<close>

definition strict_eq :: "number \<Rightarrow> number \<Rightarrow> bool" where
  "strict_eq x y = (x \<noteq> NaN \<and> y \<noteq> NaN \<and> x = y)"

definition Number_isNaN :: "number \<Rightarrow> bool" where
  "Number_isNaN x = (x = NaN)"

fun Math_abs :: "number \<Rightarrow> number" where
  "Math_abs x = \<bar>x\<bar>"

fun Math_exp :: "number \<Rightarrow> number" where
  "Math_exp NaN = NaN"
| "Math_exp PInf = PInf"
| "Math_exp NInf = Fin 0"
| "Math_exp (Fin a) = Fin (exp a)"

fun Math_log :: "number \<Rightarrow> number" where
  "Math_log NaN = NaN"
| "Math_log PInf = PInf"
| "Math_log NInf = NaN"
| "Math_log (Fin a) = (if a < 0 then NaN else if a = 0 then NInf else Fin (ln a))"

fun Math_sqrt :: "number \<Rightarrow> number" where
  "Math_sqrt NaN = NaN"
| "Math_sqrt PInf = PInf"
| "Math_sqrt NInf = NaN"
| "Math_sqrt (Fin a) = (if a < 0 then NaN else Fin (sqrt a))"

fun Math_tanh :: "number \<Rightarrow> number" where
  "Math_tanh NaN = NaN"
| "Math_tanh PInf = Fin 1"
| "Math_tanh NInf = Fin (- 1)"
| "Math_tanh (Fin a) = Fin (tanh a)"

fun Math_atan :: "number \<Rightarrow> number" where
  "Math_atan NaN = NaN"
| "Math_atan PInf = Fin (pi / 2)"
| "Math_atan NInf = Fin (- (pi / 2))"
| "Math_atan (Fin a) = Fin (arctan a)"

fun Math_floor :: "number \<Rightarrow> number" where
  "Math_floor (Fin a) = Fin (of_int \<lfloor>a\<rfloor>)"
| "Math_floor x = x"

text \<open>
  \<^verbatim>\<open>Math.pow(x, n)\<close> for a nonnegative integer exponent, the only kind the sources use:
  the exponent \<open>0\<close> gives \<open>1\<close> for every base, NaN included.
\<close>

fun Math_pow :: "number \<Rightarrow> nat \<Rightarrow> number" where
  "Math_pow x 0 = Fin 1"
| "Math_pow NaN n = NaN"
| "Math_pow PInf n = PInf"
| "Math_pow NInf n = (if even n then PInf else NInf)"
| "Math_pow (Fin a) n = Fin (a ^ n)"

subsection \<open>Rounding to a double\<close>

text \<open>
  A double has 53 significant bits. \<open>round_even\<close> rounds to the nearest integer, a tie going
  to the even one; \<open>round_double\<close> rounds a real number to the nearest double, the unit in
  the last place being \<open>2\<close> to the power \<open>\<lfloor>log\<^sub>2 \<bar>x\<bar>\<rfloor> - 52\<close> and at least \<open>2\<close> to the power \<open>-1074\<close>
  (the subnormal range), and a result of magnitude \<open>2 ^ 1024\<close> or more being an infinity.
  \<open>times_double\<close> is the multiplication of two numbers as the machine does it, and a
  numeric literal of the source denotes \<open>round_double\<close> of its decimal value.
\<close>

definition round_even :: "real \<Rightarrow> int" where
  "round_even y =
    (let f = \<lfloor>y\<rfloor>; d = y - of_int f
     in if d < 1 / 2 then f else if 1 / 2 < d then f + 1 else if even f then f else f + 1)"

definition round_double :: "real \<Rightarrow> number" where
  "round_double x =
    (if x = 0 then Fin 0
     else
       let e = max (\<lfloor>log 2 \<bar>x\<bar>\<rfloor> - 52) (- 1074);
           ulp = 2 powr of_int e;
           r = of_int (round_even (x / ulp)) * ulp
       in if 2 powr 1024 \<le> \<bar>r\<bar> then (if 0 < x then PInf else NInf) else Fin r)"

definition times_double :: "number \<Rightarrow> number \<Rightarrow> number" where
  "times_double x y = (case x * y of Fin r \<Rightarrow> round_double r | z \<Rightarrow> z)"

text \<open>
  The relative error of one rounding is at most \<open>unit_roundoff\<close>, as long as the result is a
  normal double.
\<close>

definition unit_roundoff :: real where
  "unit_roundoff = 1 / 2 ^ 53"

section \<open>util/erf.ts: the Chebyshev approximation\<close>

definition chebyshevErf :: "number \<Rightarrow> number" where
  "chebyshevErf x =
    (if strict_eq x (Fin 0) then Fin 0
     else
       let z = Math_abs x;
           t = Fin 2 / (Fin 2 + z);
           r = t * Math_exp (- z * z - Fin 1.26551223 +
                 t * (Fin 1.00002368 +
                 t * (Fin 0.37409196 +
                 t * (Fin 0.09678418 +
                 t * (Fin (- 0.18628806) +
                 t * (Fin 0.27886807 +
                 t * (Fin (- 1.13520398) +
                 t * (Fin 1.48851587 +
                 t * (Fin (- 0.82215223) + t * Fin 0.17087277)))))))))
       in if x \<ge> Fin 0 then Fin 1 - r else r - Fin 1)"

section \<open>Thrown values\<close>

text \<open>
  A \<^verbatim>\<open>throw\<close> is the left summand of the result. The sources throw either a bare
  string or an \<^verbatim>\<open>Error\<close> object; a message is kept as the pieces of its template
  literal, an interpolated number staying a number.
\<close>

datatype msg_part = Lit string | Val number

datatype thrown = Throw_string "msg_part list" | Throw_Error "msg_part list"

fun message :: "thrown \<Rightarrow> msg_part list" where
  "message (Throw_string m) = m"
| "message (Throw_Error m) = m"

section \<open>util/factorial.ts\<close>

definition MAX_FACTORIAL_ARG :: number where
  "MAX_FACTORIAL_ARG = Fin 170"

definition everySinxteenthFactorial :: "number list" where
  "everySinxteenthFactorial =
    [round_double 1,
     round_double 20922789888000,
     round_double (2631308369336935 * 10 ^ 20),
     round_double (12413915592536073 * 10 ^ 45),
     round_double (12688693218588417 * 10 ^ 73),
     round_double (7156945704626381 * 10 ^ 103),
     round_double (9916779348709496 * 10 ^ 134),
     round_double (1974506857221074 * 10 ^ 167),
     round_double (3856204823625804 * 10 ^ 200),
     round_double (55502938327393044 * 10 ^ 233),
     round_double (47147236359920616 * 10 ^ 268)]"

text \<open>
  The operands of \<^verbatim>\<open>&\<close> and \<^verbatim>\<open>>>\<close> are converted by \<^verbatim>\<open>ToInt32\<close>: truncation
  towards zero, then wrap-around to a signed 32-bit integer; NaN and the infinities give 0.
\<close>

definition ToInt32 :: "number \<Rightarrow> int" where
  "ToInt32 x =
    (case x of
       Fin a \<Rightarrow> signed_take_bit 31 (if a < 0 then \<lceil>a\<rceil> else \<lfloor>a\<rfloor>)
     | _ \<Rightarrow> 0)"

text \<open>Reading an array out of range gives \<^verbatim>\<open>undefined\<close>, which arithmetic turns into NaN.\<close>

definition array_get :: "number list \<Rightarrow> int \<Rightarrow> number" where
  "array_get xs i = (if 0 \<le> i \<and> i < int (length xs) then xs ! nat i else NaN)"

text \<open>
  \<^verbatim>\<open>for (let index = ...; index <= fx; index++) s *= index\<close>. The loop is only reached
  with a finite \<open>fx\<close>, which is the real number the loop is given here. Each product is
  rounded to a double, and so is the final product by the table entry.
\<close>

function factorial_loop :: "int \<Rightarrow> real \<Rightarrow> number \<Rightarrow> number" where
  "factorial_loop index fx s =
    (if of_int index \<le> fx
     then factorial_loop (index + 1) fx (times_double s (Fin (of_int index)))
     else s)"
  by pat_completeness auto
termination
  by (relation "measure (\<lambda>(index, fx, s). nat (\<lfloor>fx\<rfloor> + 1 - index))") (auto, linarith)

declare factorial_loop.simps [simp del]

definition factorial :: "number \<Rightarrow> thrown + number" where
  "factorial x =
    (if x < Fin 0 then
       Inl (Throw_string
         [Lit ''The argument must be nonnegative. The argument was '', Val x, Lit ''.''])
     else
       let fx = Math_floor x
       in if Number_isNaN fx then Inr NaN
          else if fx > MAX_FACTORIAL_ARG then Inr PInf
          else
            (case fx of
               Fin f \<Rightarrow>
                 Inr (times_double
                       (factorial_loop (1 + and (ToInt32 fx) (not 15)) f (Fin 1))
                       (array_get everySinxteenthFactorial (drop_bit 4 (ToInt32 fx))))
             | _ \<Rightarrow> Inr NaN))"

section \<open>erf.ts: the Taylor, Vazquez-Leal and Soranzo approximations\<close>

text \<open>
  \<^verbatim>\<open>for (let index = 0; index <= degree; index++)\<close> with the accumulator \<open>b\<close>. The
  degree is a natural number here (the default is 40) and \<^verbatim>\<open>index << 1\<close> is \<open>2 * index\<close>,
  which is what the 32-bit shift gives for every index below \<open>2 ^ 30\<close>.
\<close>

function taylor_loop :: "nat \<Rightarrow> nat \<Rightarrow> number \<Rightarrow> number \<Rightarrow> thrown + number" where
  "taylor_loop index degree x b =
    (if index \<le> degree then
       let t = 2 * index;
           s = Math_pow (Fin (- 1)) index
       in (case factorial (Fin (real index)) of
             Inl e \<Rightarrow> Inl e
           | Inr f \<Rightarrow>
               taylor_loop (index + 1) degree x
                 (b + (s * Math_pow x t) / (f * Fin (real (t + 1)))))
     else Inr b)"
  by pat_completeness auto
termination
  by (relation "measure (\<lambda>(index, degree, x, b). degree + 1 - index)") auto

definition taylorErf :: "number \<Rightarrow> nat \<Rightarrow> thrown + number" where
  "taylorErf x degree =
    (let a = Fin 1.1283791670955126 * x
     in case taylor_loop 0 degree x (Fin 0) of
          Inl e \<Rightarrow> Inl e
        | Inr b \<Rightarrow> Inr (a * b))"

definition taylorErf_default_degree :: nat where
  "taylorErf_default_degree = 40"

definition vazquezLealErf :: "number \<Rightarrow> number" where
  "vazquezLealErf x =
    (let a = Fin 11.001696879181248;
         b = Fin 0.17789761643397722;
         c = Fin 55.5
     in Math_tanh (a * x - c * Math_atan (b * x)))"

definition soranzoErf :: "number \<Rightarrow> number" where
  "soranzoErf x =
    (let x2 = x * x;
         x4 = x2 * x2
     in if strict_eq x4 PInf then Fin 1
        else
          let a = Fin 1.2735457;
              b = Fin 0.1487936;
              c = Fin 0.1480931;
              d = Fin 0.000516;
              f = Math_sqrt (Fin 1 -
                    Math_exp ((- x2 * (a + b * x2)) / (Fin 1 + c * x2 + d * x4)))
          in if x \<ge> Fin 0 then f else - f)"

section \<open>ierf.ts: Acklam's inverse complementary error function\<close>

text \<open>
  The body of the \<^verbatim>\<open>for (let index = 0; index < 2; index++)\<close> loop, and the loop
  itself: \<open>err\<close> is assigned from the current \<open>x\<close>, then \<open>x\<close> is updated.
\<close>

definition halley_step :: "number \<Rightarrow> number \<Rightarrow> number" where
  "halley_step pp x =
    (let err = chebyshevErf x - pp
     in x + err / (Fin 1.12837916709551257 * Math_exp (- Math_sqrt x) - x * err))"

function halley_loop :: "nat \<Rightarrow> number \<Rightarrow> number \<Rightarrow> number" where
  "halley_loop index pp x =
    (if index < 2 then halley_loop (index + 1) pp (halley_step pp x) else x)"
  by pat_completeness auto
termination
  by (relation "measure (\<lambda>(index, pp, x). 2 - index)") auto

definition acklamIerfc :: "number \<Rightarrow> number" where
  "acklamIerfc p =
    (if p \<ge> Fin 2 then Fin (- 100)
     else if p \<le> Fin 0 then Fin 100
     else
       let pp = (if p < Fin 1 then p else Fin 2 - p);
           t = Math_sqrt (Fin (- 2) * Math_log (pp * Fin 0.5));
           x0 = Fin (- 0.70711) *
                  ((Fin 2.30753 + t * Fin 0.27061) /
                   (Fin 1 + t * (Fin 0.99229 + t * Fin 0.04481)) - t);
           x = halley_loop 0 pp x0
       in if p < Fin 1 then x else - x)"

section \<open>distributions/normal.ts: the NormalDistribution class\<close>

record NormalDistribution =
  mean :: number
  standardDeviation :: number
  erf :: "number \<Rightarrow> number"

text \<open>
  An optional argument is absent (\<^verbatim>\<open>undefined\<close>) or given; the constructor also tests
  its \<^verbatim>\<open>erf\<close> argument for \<^verbatim>\<open>null\<close>, so that argument has three forms. A default
  parameter value replaces \<^verbatim>\<open>undefined\<close> only, before the body of the constructor runs.
\<close>

datatype 'a js_arg = Undefined | Null | Given 'a

definition default_number :: "number option \<Rightarrow> number \<Rightarrow> number" where
  "default_number a d = (case a of None \<Rightarrow> d | Some v \<Rightarrow> v)"

definition default_arg :: "'a js_arg \<Rightarrow> 'a \<Rightarrow> 'a js_arg" where
  "default_arg a d = (case a of Undefined \<Rightarrow> Given d | _ \<Rightarrow> a)"

definition new_NormalDistribution ::
  "number option \<Rightarrow> number option \<Rightarrow> (number \<Rightarrow> number) js_arg
     \<Rightarrow> thrown + NormalDistribution" where
  "new_NormalDistribution mean_arg standardDeviation_arg erf_arg =
    (let m = default_number mean_arg (Fin 0);
         sd = default_number standardDeviation_arg (Fin 1);
         e = default_arg erf_arg chebyshevErf
     in if Number_isNaN m then Inl (Throw_string [Lit ''The mean must be a number.''])
        else if Number_isNaN sd then
          Inl (Throw_Error [Lit ''The standard deviation must be a number''])
        else if sd \<le> Fin 0 then
          Inl (Throw_Error
            [Lit ''The standard deviation must be positive. The inserted standard deviation was '',
             Val sd, Lit ''.''])
        else
          (case e of
             Given f \<Rightarrow> Inr \<lparr>mean = m, standardDeviation = sd, erf = f\<rparr>
           | _ \<Rightarrow>
               Inl (Throw_Error
                 [Lit ''The error function formula approximation must not be undefined or null.''])))"

definition NormalDistribution_standard :: "(number \<Rightarrow> number) js_arg \<Rightarrow> thrown + NormalDistribution" where
  "NormalDistribution_standard erf_arg = new_NormalDistribution (Some (Fin 0)) (Some (Fin 1)) erf_arg"

definition NormalDistribution_of ::
  "number option \<Rightarrow> number option \<Rightarrow> (number \<Rightarrow> number) js_arg
     \<Rightarrow> thrown + NormalDistribution" where
  "NormalDistribution_of mean_arg standardDeviation_arg erf_arg =
    new_NormalDistribution mean_arg standardDeviation_arg erf_arg"

definition SQRT1_2 :: number where
  "SQRT1_2 = Fin (sqrt (1 / 2))"

definition standardize :: "NormalDistribution \<Rightarrow> number \<Rightarrow> number" where
  "standardize d x = (x - mean d) / standardDeviation d"

definition cdf :: "NormalDistribution \<Rightarrow> number \<Rightarrow> number" where
  "cdf d x = (Fin 1 + erf d (standardize d x * SQRT1_2)) / Fin 2"

text \<open>
  To tell whether \<^verbatim>\<open>between\<close> evaluates \<^verbatim>\<open>this.cdf\<close>, the method runs on a log of
  the calls made to \<^verbatim>\<open>cdf\<close>: a call appends its argument and returns the value.
\<close>

type_synonym 'a logged = "number list \<Rightarrow> 'a \<times> number list"

definition call_cdf :: "NormalDistribution \<Rightarrow> number \<Rightarrow> number logged" where
  "call_cdf d x = (\<lambda>calls. (cdf d x, calls @ [x]))"

definition between :: "NormalDistribution \<Rightarrow> number \<Rightarrow> number \<Rightarrow> number logged" where
  "between d startInterval endInterval =
    (\<lambda>calls.
      if startInterval \<ge> endInterval then (Fin 0, calls)
      else
        let (ce, log1) = call_cdf d endInterval calls;
            (cs, log2) = call_cdf d startInterval log1
        in (ce - cs, log2))"

definition default_tolerance :: number where
  "default_tolerance = Fin 0.005"

definition isNormalDistributed ::
  "(number \<Rightarrow> number) \<Rightarrow> number \<Rightarrow> number \<Rightarrow> number option \<Rightarrow> thrown + bool" where
  "isNormalDistributed cdf_arg m sd tolerance_arg =
    (let tolerance = default_number tolerance_arg default_tolerance
     in if Number_isNaN m then Inl (Throw_Error [Lit ''The mean must be a number''])
        else if Number_isNaN sd then
          Inl (Throw_Error [Lit ''The standard deviation must be a number''])
        else if sd \<le> Fin 0 then
          Inl (Throw_Error [Lit ''The standard deviation must be positive''])
        else
          let insideFirstStandardDeviation = cdf_arg (m + sd) - cdf_arg (m - sd)
          in if Math_abs (insideFirstStandardDeviation - Fin 0.6826894772086507) \<ge> tolerance
             then Inr False
             else
               let insideSecondStandardDeviation =
                     cdf_arg (m + Fin 2 * sd) - cdf_arg (m - Fin 2 * sd)
               in if Math_abs (insideSecondStandardDeviation - Fin 0.954499740219751)
                       \<ge> tolerance
                  then Inr False
                  else
                    let insideThirdStandardDeviation =
                          cdf_arg (m + Fin 3 * sd) - cdf_arg (m - Fin 3 * sd)
                    in if Math_abs (insideThirdStandardDeviation - Fin 0.9973002038534888)
                            \<ge> tolerance
                       then Inr False
                       else Inr True)"

section \<open>The algorithm of acklamIerfc as described\<close>




section \<open>Real-valued functions used in the proofs\<close>

text \<open>
  On a finite argument the Chebyshev approximation is \<open>1 - cheb_r \<bar>x\<bar>\<close> or \<open>cheb_r \<bar>x\<bar> - 1\<close>
  (lemma \<open>chebyshevErf_Fin\<close> below); \<open>exp_poly\<close> is the Taylor polynomial of degree 9 of the
  exponential, used to bound it.
\<close>

definition cheb_poly :: "real \<Rightarrow> real" where
  "cheb_poly t =
     t * (1.00002368 +
     t * (0.37409196 +
     t * (0.09678418 +
     t * (- 0.18628806 +
     t * (0.27886807 +
     t * (- 1.13520398 +
     t * (1.48851587 +
     t * (- 0.82215223 + t * 0.17087277))))))))"

definition cheb_r :: "real \<Rightarrow> real" where
  "cheb_r z = (let t = 2 / (2 + z) in t * exp (- z * z - 1.26551223 + cheb_poly t))"

definition exp_poly :: "real \<Rightarrow> real" where
  "exp_poly x = 1 + x * (1 + x / 2 * (1 + x / 3 * (1 + x / 4 * (1 + x / 5 * (1 + x / 6 *
     (1 + x / 7 * (1 + x / 8 * (1 + x / 9))))))))"



section \<open>Arithmetic with NaN\<close>

lemma add_NaN_right [simp]: "x + NaN = NaN"
  by (cases x) auto

lemma mult_NaN_right [simp]: "x * NaN = NaN"
  by (cases x) auto

lemma divide_NaN_right [simp]: "x / NaN = NaN"
  by (cases x) auto

lemma minus_NaN [simp]: "x - NaN = NaN" "NaN - x = NaN"
  by (simp_all add: minus_number_def)

lemma le_NaN_right [simp]: "\<not> x \<le> NaN"
  by (cases x) auto

lemma less_NaN_right [simp]: "\<not> x < NaN"
  by (cases x) auto

lemma chebyshevErf_NaN: "chebyshevErf NaN = NaN"
  by (simp add: chebyshevErf_def strict_eq_def)

lemma halley_step_NaN: "halley_step NaN NaN = NaN"
  by (simp add: halley_step_def chebyshevErf_NaN)

section \<open>Rounding to double\<close>

lemma round_even_int [simp]: "round_even (of_int n) = n"
  by (simp add: round_even_def)

lemma round_even_error: "\<bar>of_int (round_even y) - y\<bar> \<le> 1 / 2"
proof -
  have "of_int \<lfloor>y\<rfloor> \<le> y" "y < of_int \<lfloor>y\<rfloor> + 1"
    by linarith+
  then show ?thesis
    by (auto simp add: round_even_def Let_def)
qed

lemma round_even_near:
  assumes "\<bar>y - of_int m\<bar> < 1 / 2"
  shows "round_even y = m"
proof (cases "of_int m \<le> y")
  case True
  with assms have "\<lfloor>y\<rfloor> = m" by linarith
  with assms True show ?thesis
    by (simp add: round_even_def Let_def)
next
  case False
  with assms have f: "\<lfloor>y\<rfloor> = m - 1" by linarith
  with assms False show ?thesis
    by (simp add: round_even_def Let_def)
qed

lemma round_even_mono_int:
  assumes "of_int n \<le> y"
  shows "n \<le> round_even y"
proof -
  from assms have "n \<le> \<lfloor>y\<rfloor>" by linarith
  then show ?thesis
    by (auto simp add: round_even_def Let_def)
qed

text \<open>A positive number in the binade of exponent \<open>k\<close>, within the normal range.\<close>

lemma double_in_binade:
  assumes "2 powr of_int k \<le> x" "x < 2 powr of_int (k + 1)" "- 1022 \<le> k" "k \<le> 1022"
  defines "r \<equiv> of_int (round_even (x / 2 powr of_int (k - 52))) * 2 powr of_int (k - 52)"
  shows "round_double x = Fin r" "\<bar>r - x\<bar> \<le> 2 powr of_int (k - 53)" "2 powr of_int k \<le> r"
proof -
  have "0 < (2::real) powr of_int k" by simp
  with assms(1) have xp: "0 < x" by linarith
  then have fl: "\<lfloor>log 2 \<bar>x\<bar>\<rfloor> = k"
    using assms by (simp add: floor_log_eq_powr_iff)
  define ulp :: real where "ulp = 2 powr of_int (k - 52)"
  have up: "0 < ulp" by (simp add: ulp_def)
  define m where "m = round_even (x / ulp)"
  have e: "max (\<lfloor>log 2 \<bar>x\<bar>\<rfloor> - 52) (- 1074) = k - 52"
    using fl assms by simp
  have k: "2 powr of_int k = 2 ^ 52 * ulp"
    by (simp add: ulp_def powr_diff)
  have k1: "2 powr of_int (k + 1) = 2 ^ 53 * ulp"
    by (simp add: ulp_def powr_diff powr_add)
  from assms(1) have "2 ^ 52 * ulp \<le> x"
    unfolding k .
  then have "of_int (2 ^ 52) \<le> x / ulp"
    using up by (simp add: pos_le_divide_eq)
  then have ml: "2 ^ 52 \<le> m"
    unfolding m_def by (rule round_even_mono_int)
  from assms(2) have "x < 2 ^ 53 * ulp"
    unfolding k1 .
  then have "x / ulp < 2 ^ 53"
    using up by (simp add: pos_divide_less_eq)
  moreover have "\<bar>of_int m - x / ulp\<bar> \<le> 1 / 2"
    unfolding m_def by (rule round_even_error)
  ultimately have "of_int m < (2 ^ 53 + 1 :: real)" by linarith
  then have "real_of_int m < real_of_int (2 ^ 53 + 1)" by simp
  then have "m < 2 ^ 53 + 1" by (simp only: of_int_less_iff)
  then have mu: "m \<le> 2 ^ 53" by simp
  have r_def: "r = of_int m * ulp"
    by (simp add: r_def m_def ulp_def)
  from ml have "real_of_int (2 ^ 52) \<le> real_of_int m" by (simp only: of_int_le_iff)
  then have "2 ^ 52 \<le> real_of_int m" by simp
  then have rl: "2 powr of_int k \<le> r"
    unfolding r_def k using up by (intro mult_right_mono) simp_all
  from mu have "real_of_int m \<le> real_of_int (2 ^ 53)" by (simp only: of_int_le_iff)
  then have "real_of_int m \<le> 2 ^ 53" by simp
  then have "r \<le> 2 ^ 53 * ulp"
    unfolding r_def using up by (intro mult_right_mono) simp_all
  also have "\<dots> = 2 powr of_int (k + 1)" unfolding k1 ..
  also have "\<dots> \<le> 2 powr 1023"
    using assms by (intro powr_mono) simp_all
  also have "\<dots> < 2 powr 1024"
    by (intro powr_less_mono) simp_all
  finally have ru: "r < 2 powr 1024" .
  have r0: "0 < r"
    using rl \<open>0 < 2 powr of_int k\<close> by linarith
  have "r - x = (of_int m - x / ulp) * ulp"
    using up by (simp add: r_def left_diff_distrib)
  then have "\<bar>r - x\<bar> = \<bar>of_int m - x / ulp\<bar> * ulp"
    using up by (simp add: abs_mult)
  also have "\<dots> \<le> 1 / 2 * ulp"
    unfolding m_def using up by (intro mult_right_mono round_even_error) simp
  also have "\<dots> = 2 powr of_int (k - 53)"
    by (simp add: ulp_def powr_diff)
  finally have err: "\<bar>r - x\<bar> \<le> 2 powr of_int (k - 53)" .
  have "round_double x =
      (if x = 0 then Fin 0
       else if 2 powr 1024 \<le> \<bar>r\<bar> then (if 0 < x then PInf else NInf) else Fin r)"
    unfolding round_double_def Let_def e ulp_def [symmetric] m_def [symmetric] r_def [symmetric] ..
  then show "round_double x = Fin r"
    using xp ru r0 by simp
  show "\<bar>r - x\<bar> \<le> 2 powr of_int (k - 53)" "2 powr of_int k \<le> r"
    by (rule err, rule rl)
qed

lemma round_double_rel:
  assumes "1 \<le> x" "x < 2 ^ 1023"
  shows "\<exists>r. round_double x = Fin r \<and> \<bar>r - x\<bar> \<le> x / 2 ^ 53 \<and> 1 \<le> r"
proof -
  define k where "k = \<lfloor>log 2 x\<rfloor>"
  have b: "2 powr of_int k \<le> x" "x < 2 powr of_int (k + 1)"
    using assms floor_log_eq_powr_iff [of x 2 k] by (simp_all add: k_def)
  have "0 \<le> log 2 x"
    using assms by simp
  then have k0: "0 \<le> k"
    by (simp add: k_def)
  have "log 2 x < log 2 (2 ^ 1023)"
    using assms by (subst log_less_cancel_iff) simp_all
  then have "log 2 x < 1023"
    using log_pow_cancel [of 2 1023] by simp
  then have k1: "k \<le> 1022"
    unfolding k_def by linarith
  define r :: real
    where "r = of_int (round_even (x / 2 powr of_int (k - 52))) * 2 powr of_int (k - 52)"
  have r: "round_double x = Fin r" "\<bar>r - x\<bar> \<le> 2 powr of_int (k - 53)" "2 powr of_int k \<le> r"
    unfolding r_def using b k0 k1 by (intro double_in_binade; simp)+
  have "2 powr of_int (k - 53) = (2 powr of_int k / 2 ^ 53 :: real)"
    by (simp add: powr_diff)
  also have "\<dots> \<le> x / 2 ^ 53"
    using b(1) by (intro divide_right_mono) simp_all
  finally have e: "2 powr of_int (k - 53) \<le> x / 2 ^ 53" .
  have "(2::real) powr 0 \<le> 2 powr of_int k"
    using k0 by (intro powr_mono) simp_all
  then have "1 \<le> (2::real) powr of_int k" by simp
  with r e show ?thesis
    by (intro exI [of _ r]) linarith
qed

lemma round_double_int:
  assumes "0 < M" "M < 2 ^ 53"
  shows "round_double (of_int M) = Fin (of_int M)"
proof -
  define x where "x = real_of_int M"
  have x: "1 \<le> x" "x < 2 ^ 53"
    using assms by (simp_all add: x_def)
  define k where "k = \<lfloor>log 2 x\<rfloor>"
  have b: "2 powr of_int k \<le> x" "x < 2 powr of_int (k + 1)"
    using x floor_log_eq_powr_iff [of x 2 k] by (simp_all add: k_def)
  have "0 \<le> log 2 x"
    using x by simp
  then have k0: "0 \<le> k"
    by (simp add: k_def)
  have "log 2 x < log 2 (2 ^ 53)"
    using x by (subst log_less_cancel_iff) simp_all
  then have "log 2 x < 53"
    using log_pow_cancel [of 2 53] by simp
  then have k1: "k \<le> 52"
    unfolding k_def by linarith
  define n where "n = nat (52 - k)"
  have "(2::real) powr of_int (k - 52) = 2 powr (- real n)"
    using k1 by (simp add: n_def)
  also have "\<dots> = inverse (2 powr real n)"
    by (rule powr_minus)
  also have "\<dots> = 1 / 2 ^ n"
    by (simp add: powr_realpow inverse_eq_divide)
  finally have u: "2 powr of_int (k - 52) = (1 / 2 ^ n :: real)" .
  have "x / (1 / 2 ^ n) = of_int (M * 2 ^ n)"
    by (simp add: x_def)
  then have "round_even (x / (1 / 2 ^ n)) = M * 2 ^ n"
    by (simp only: round_even_int)
  then have "of_int (round_even (x / (1 / 2 ^ n))) * (1 / 2 ^ n) = x"
    by (simp add: x_def)
  moreover have "round_double x = Fin (of_int (round_even (x / (1 / 2 ^ n))) * (1 / 2 ^ n))"
    using b k0 k1 by (intro double_in_binade(1) [of k x, unfolded u]) simp_all
  ultimately show ?thesis
    by (simp only: x_def)
qed

lemma round_double_eval:
  assumes "2 ^ 52 * 2 ^ j \<le> x" "x < 2 ^ 53 * 2 ^ j" "j \<le> 970"
    and "\<bar>x - of_int m * 2 ^ j\<bar> * 2 < 2 ^ j"
  shows "round_double x = Fin (of_int m * 2 ^ j)"
proof -
  define k where "k = 52 + int j"
  have p: "2 powr of_int k = 2 ^ 52 * (2 ^ j :: real)"
    by (simp add: k_def powr_add powr_realpow)
  have p1: "2 powr of_int (k + 1) = 2 ^ 53 * (2 ^ j :: real)"
    by (simp add: k_def powr_add powr_realpow)
  have u: "2 powr of_int (k - 52) = (2 ^ j :: real)"
    by (simp add: k_def powr_realpow)
  define y where "y = x / 2 ^ j - of_int m"
  have "y * 2 ^ j = x - of_int m * 2 ^ j"
    by (simp add: y_def field_simps)
  then have "\<bar>y\<bar> * 2 ^ j = \<bar>x - of_int m * 2 ^ j\<bar>"
    by (simp add: abs_mult_pos)
  with assms(4) have h: "\<bar>y\<bar> * 2 ^ j * 2 < 2 ^ j"
    by (simp only:)
  have "\<bar>y\<bar> * 2 < 1"
  proof (rule ccontr)
    assume "\<not> \<bar>y\<bar> * 2 < 1"
    then have "1 * 2 ^ j \<le> (\<bar>y\<bar> * 2) * 2 ^ j"
      by (intro mult_right_mono) simp_all
    with h show False
      by (simp add: ac_simps)
  qed
  then have "\<bar>x / 2 ^ j - of_int m\<bar> < 1 / 2"
    by (simp add: y_def)
  then have "round_even (x / 2 ^ j) = m"
    by (rule round_even_near)
  moreover have "round_double x = Fin (of_int (round_even (x / 2 ^ j)) * 2 ^ j)"
    using assms(1-3) unfolding p [symmetric] p1 [symmetric]
    by (intro double_in_binade(1) [of k x, unfolded u]) (simp_all add: k_def)
  ultimately show ?thesis
    by (simp only:)
qed

lemma times_double_Fin: "times_double (Fin a) (Fin b) = round_double (a * b)"
  by (simp add: times_double_def)

section \<open>Bounds for the approximations on finite arguments\<close>

lemma chebyshevErf_Fin:
  "chebyshevErf (Fin a) =
    (if a = 0 then Fin 0 else if 0 \<le> a then Fin (1 - cheb_r \<bar>a\<bar>) else Fin (cheb_r \<bar>a\<bar> - 1))"
  by (simp add: chebyshevErf_def strict_eq_def Let_def minus_number_def cheb_r_def cheb_poly_def)

lemma exp_poly_sum: "exp_poly x = (\<Sum>m<10. x ^ m / fact m)"
  by (simp add: exp_poly_def lessThan_Suc eval_nat_numeral field_simps)

lemma exp_2_le_9: "exp (2::real) \<le> 9"
proof -
  have "exp (2::real) = exp 1 * exp 1"
    by (simp add: exp_add [symmetric])
  also have "\<dots> \<le> 3 * 3"
    by (intro mult_mono exp_le) simp_all
  finally show ?thesis by simp
qed

lemma exp_bounds:
  assumes "0 \<le> x" "x \<le> 2"
  shows "exp_poly x \<le> exp x" "exp x \<le> exp_poly x + x ^ 10 / 403200"
proof -
  obtain t where t: "\<bar>t\<bar> \<le> \<bar>x\<bar>"
    and e: "exp x = (\<Sum>m<10. x ^ m / fact m) + exp t / fact 10 * x ^ 10"
    using Maclaurin_exp_le [of x 10] by blast
  have "exp t \<le> exp 2"
    using t assms by simp
  then have t9: "exp t \<le> 9"
    using exp_2_le_9 by linarith
  have f: "(fact 10 :: real) = 3628800"
    by (simp add: fact_numeral)
  have "0 \<le> exp t / fact 10 * x ^ 10"
    using assms by simp
  then show "exp_poly x \<le> exp x"
    by (simp add: e exp_poly_sum)
  have "exp t / fact 10 * x ^ 10 \<le> 9 / fact 10 * x ^ 10"
    using t9 assms by (intro mult_right_mono divide_right_mono) simp_all
  then show "exp x \<le> exp_poly x + x ^ 10 / 403200"
    by (simp add: e exp_poly_sum f)
qed

lemma exp_693: "exp (0.693::real) \<le> 2"
  using exp_bounds(2) [of "0.693"] by (simp add: exp_poly_def power_divide)

lemma mult_bounds:
  fixes t u :: real
  assumes "0 \<le> lo" "lo \<le> t" "t \<le> hi" "l \<le> u" "u \<le> h"
  shows "min (lo * l) (hi * l) \<le> t * u" "t * u \<le> max (lo * h) (hi * h)"
proof -
  have t0: "0 \<le> t" using assms by linarith
  have "min (lo * l) (hi * l) \<le> t * l"
  proof (cases "0 \<le> l")
    case True
    then have "lo * l \<le> t * l" using assms by (intro mult_right_mono) simp_all
    then show ?thesis by simp
  next
    case False
    then have "hi * l \<le> t * l" using assms by (intro mult_right_mono_neg) simp_all
    then show ?thesis by simp
  qed
  also have "t * l \<le> t * u"
    using t0 assms by (intro mult_left_mono) simp_all
  finally show "min (lo * l) (hi * l) \<le> t * u" .
  have "t * u \<le> t * h"
    using t0 assms by (intro mult_left_mono) simp_all
  also have "t * h \<le> max (lo * h) (hi * h)"
  proof (cases "0 \<le> h")
    case True
    then have "t * h \<le> hi * h" using assms by (intro mult_right_mono) simp_all
    then show ?thesis by simp
  next
    case False
    then have "t * h \<le> lo * h" using assms by (intro mult_right_mono_neg) simp_all
    then show ?thesis by simp
  qed
  finally show "t * u \<le> max (lo * h) (hi * h)" .
qed

lemma cheb_poly_le:
  assumes "0 \<le> t" "t \<le> 1"
  shows "cheb_poly t \<le> 1.9168"
proof -
  define u8 where "u8 = - 0.82215223 + t * 0.17087277"
  define u7 where "u7 = 1.48851587 + t * u8"
  define u6 where "u6 = - 1.13520398 + t * u7"
  define u5 where "u5 = 0.27886807 + t * u6"
  define u4 where "u4 = - 0.18628806 + t * u5"
  define u3 where "u3 = 0.09678418 + t * u4"
  define u2 where "u2 = 0.37409196 + t * u3"
  define u1 where "u1 = 1.00002368 + t * u2"
  have t: "(0::real) \<le> 0" "0 \<le> t" "t \<le> 1" using assms by simp_all
  have b8: "u8 \<le> - 0.65" 
    unfolding u8_def using mult_bounds(2) [OF t order_refl, of "0.17087277" "0.17087277"] by simp
  have b7: "u7 \<le> 1.48851587"
    unfolding u7_def using mult_bounds(2) [OF t order_refl b8] by simp
  have b6: "u6 \<le> 0.35331189"
    unfolding u6_def using mult_bounds(2) [OF t order_refl b7] by simp
  have b5: "u5 \<le> 0.63217996"
    unfolding u5_def using mult_bounds(2) [OF t order_refl b6] by simp
  have b4: "u4 \<le> 0.4458919"
    unfolding u4_def using mult_bounds(2) [OF t order_refl b5] by simp
  have b3: "u3 \<le> 0.54267608"
    unfolding u3_def using mult_bounds(2) [OF t order_refl b4] by simp
  have b2: "u2 \<le> 0.91676804"
    unfolding u2_def using mult_bounds(2) [OF t order_refl b3] by simp
  have b1: "u1 \<le> 1.91679172"
    unfolding u1_def using mult_bounds(2) [OF t order_refl b2] by simp
  have "t * u1 \<le> 1.91679172"
    using mult_bounds(2) [OF t order_refl b1] by simp
  moreover have "cheb_poly t = t * u1"
    by (simp add: cheb_poly_def u1_def u2_def u3_def u4_def u5_def u6_def u7_def u8_def)
  ultimately show ?thesis by simp
qed

lemma cheb_r_range:
  assumes "0 \<le> z"
  shows "0 \<le> cheb_r z" "cheb_r z \<le> 2"
proof -
  define t where "t = 2 / (2 + z)"
  have t: "0 \<le> t" "t \<le> 1"
    using assms by (simp_all add: t_def)
  define w where "w = z * z"
  have w: "0 \<le> w" by (simp add: w_def)
  have "- w - 1.26551223 + cheb_poly t \<le> 0.693"
    using cheb_poly_le [OF t] w by simp
  then have "- z * z - 1.26551223 + cheb_poly t \<le> 0.693"
    by (simp add: w_def)
  then have "exp (- z * z - 1.26551223 + cheb_poly t) \<le> 2"
    using exp_693 by (meson exp_le_cancel_iff order_trans)
  with t have "t * exp (- z * z - 1.26551223 + cheb_poly t) \<le> 1 * 2"
    by (intro mult_mono) simp_all
  then show "cheb_r z \<le> 2"
    by (simp add: cheb_r_def t_def)
  show "0 \<le> cheb_r z"
    using t by (simp add: cheb_r_def t_def [symmetric])
qed

lemma chebyshevErf_range:
  assumes "x \<noteq> NaN"
  shows "Fin (- 1) \<le> chebyshevErf x \<and> chebyshevErf x \<le> Fin 1"
proof (cases x)
  case (Fin a)
  have "0 \<le> cheb_r \<bar>a\<bar>" "cheb_r \<bar>a\<bar> \<le> 2"
    by (rule cheb_r_range, simp)+
  then have "- 1 \<le> 1 - cheb_r \<bar>a\<bar>" "1 - cheb_r \<bar>a\<bar> \<le> 1"
    "- 1 \<le> cheb_r \<bar>a\<bar> - 1" "cheb_r \<bar>a\<bar> - 1 \<le> 1"
    by simp_all
  then show ?thesis
    unfolding Fin chebyshevErf_Fin by (simp del: abs_of_nonneg abs_if abs_of_nonpos)
qed (use assms in \<open>simp_all add: chebyshevErf_def strict_eq_def Let_def minus_number_def sign_inf_def\<close>)

lemma vazquezLealErf_range:
  assumes "x \<noteq> NaN"
  shows "Fin (- 1) \<le> vazquezLealErf x \<and> vazquezLealErf x \<le> Fin 1"
proof (cases x)
  case (Fin a)
  show ?thesis
    using tanh_real_lt_1 [of "11.001696879181248 * a - 55.5 * arctan (0.17789761643397722 * a)"]
      tanh_real_gt_neg1 [of "11.001696879181248 * a - 55.5 * arctan (0.17789761643397722 * a)"]
    by (simp add: Fin vazquezLealErf_def Let_def minus_number_def less_imp_le)
qed (use assms in \<open>simp_all add: vazquezLealErf_def Let_def minus_number_def sign_inf_def\<close>)

lemma soranzoErf_range:
  assumes "x \<noteq> NaN"
  shows "Fin (- 1) \<le> soranzoErf x \<and> soranzoErf x \<le> Fin 1"
proof (cases x)
  case (Fin a)
  define w where "w = a * a"
  define d where "d = 1 + 0.1480931 * w + 0.000516 * (w * w)"
  define n where "n = - w * (1.2735457 + 0.1487936 * w)"
  have w: "0 \<le> w" by (simp add: w_def)
  then have w2: "0 \<le> w * w" by simp
  have d: "0 < d"
    unfolding d_def using w w2
    by (intro add_pos_nonneg add_nonneg_nonneg mult_nonneg_nonneg) simp_all
  have "0 \<le> w * (1.2735457 + 0.1487936 * w)"
    using w by (intro mult_nonneg_nonneg add_nonneg_nonneg) simp_all
  then have n: "n \<le> 0"
    by (simp add: n_def)
  have q: "n / d \<le> 0"
    using d n by (simp add: divide_le_0_iff)
  define f where "f = sqrt (1 - exp (n / d))"
  have e: "\<not> 1 - exp (n / d) < 0"
    using q by simp
  have f: "0 \<le> f" "f \<le> 1"
    using q by (simp_all add: f_def)
  have x2: "Fin a * Fin a = Fin w"
    by (simp add: w_def)
  have num: "- Fin w * (Fin 1.2735457 + Fin 0.1487936 * Fin w) = Fin n"
    unfolding n_def uminus_number.simps plus_number.simps times_number.simps ..
  have den: "Fin 1 + Fin 0.1480931 * Fin w + Fin 0.000516 * (Fin w * Fin w) = Fin d"
    unfolding d_def plus_number.simps times_number.simps ..
  have quo: "Fin n / Fin d = Fin (n / d)"
    using d by simp
  have rt: "Math_sqrt (Fin 1 - Math_exp (Fin (n / d))) = Fin f"
    unfolding Math_exp.simps minus_number_def uminus_number.simps plus_number.simps
      Math_sqrt.simps f_def using e by simp
  have "soranzoErf (Fin a) = (if Fin a \<ge> Fin 0 then Fin f else - Fin f)"
    unfolding soranzoErf_def Let_def x2 num den quo rt
    by (simp add: strict_eq_def)
  with f show ?thesis by (simp add: Fin)
qed (use assms in \<open>simp_all add: soranzoErf_def strict_eq_def\<close>)

section \<open>acklamIerfc at one quarter\<close>























section \<open>The saturation guards of acklamIerfc\<close>

text \<open>
  Claim C3. For every real \<open>p \<ge> 2\<close>, \<open>acklamIerfc p\<close> is exactly \<open>-100\<close>, and for every real
  \<open>q \<le> 0\<close>, \<open>acklamIerfc q\<close> is exactly \<open>+100\<close>: a finite sentinel, neither a throw (the
  function has none) nor an infinity. The comparisons are those of the language, so the
  infinities are covered and NaN satisfies neither hypothesis.
\<close>

theorem acklamIerfc_saturates:
  "Fin 2 \<le> p \<Longrightarrow> q \<le> Fin 0 \<Longrightarrow>
   acklamIerfc p = Fin (- 100) \<and> acklamIerfc q = Fin 100"
  by (cases q) (auto simp add: acklamIerfc_def)

theorem acklamIerfc_saturates_witness:
  "Fin 2 \<le> PInf \<and> Fin (- 3) \<le> Fin 0 \<and>
   acklamIerfc PInf = Fin (- 100) \<and> acklamIerfc (Fin (- 3)) = Fin 100"
  using acklamIerfc_saturates [of PInf "Fin (- 3)"] by simp

text \<open>
  Claim C10. \<open>acklamIerfc NaN\<close> is NaN: both guards are false on NaN, and NaN then goes
  through the logarithm, the initial guess and both Halley iterations.
\<close>

theorem acklamIerfc_NaN: "acklamIerfc NaN = NaN"
  by (simp add: acklamIerfc_def halley_step_NaN)

section \<open>The Chebyshev approximation is odd\<close>

text \<open>
  Claim C8. For every finite \<open>x\<close>, \<open>chebyshevErf (- x) == - chebyshevErf x\<close> (both sides are
  numbers, not NaN, and equal), \<open>chebyshevErf 0\<close> is exactly \<open>0\<close>, and the values at the
  infinities are \<open>1\<close> and \<open>-1\<close>.
\<close>

theorem chebyshevErf_odd:
  "strict_eq (chebyshevErf (- Fin a)) (- chebyshevErf (Fin a)) \<and>
   chebyshevErf (Fin 0) = Fin 0 \<and>
   chebyshevErf PInf = Fin 1 \<and>
   chebyshevErf NInf = Fin (- 1)"
  by (simp add: chebyshevErf_def strict_eq_def Let_def minus_number_def sign_inf_def)

section \<open>between\<close>

text \<open>
  Claim C6. For a distribution \<open>d\<close> returned by one of the factories and all bounds,
  \<open>between d a b\<close> returns exactly \<open>0\<close> when \<open>a \<ge> b\<close> and leaves the log of calls to
  \<open>cdf\<close> as it was; otherwise it returns \<open>cdf b - cdf a\<close>, having called \<open>cdf\<close> on \<open>b\<close> and
  then on \<open>a\<close>.
\<close>

theorem between_spec:
  "NormalDistribution_of m s e = Inr d \<or> NormalDistribution_standard e = Inr d \<Longrightarrow>
   between d a b calls =
     (if a \<ge> b then (Fin 0, calls) else (cdf d b - cdf d a, calls @ [b, a]))"
  by (simp add: between_def call_cdf_def)

theorem between_spec_witness:
  "NormalDistribution_of (Some (Fin 1)) (Some (Fin 2)) (Given chebyshevErf) =
     Inr \<lparr>mean = Fin 1, standardDeviation = Fin 2, erf = chebyshevErf\<rparr> \<and>
   between \<lparr>mean = Fin 1, standardDeviation = Fin 2, erf = chebyshevErf\<rparr>
     (Fin 3) (Fin 3) [] = (Fin 0, []) \<and>
   between \<lparr>mean = Fin 1, standardDeviation = Fin 2, erf = chebyshevErf\<rparr>
     PInf (Fin 3) [] = (Fin 0, []) \<and>
   between \<lparr>mean = Fin 1, standardDeviation = Fin 2, erf = chebyshevErf\<rparr>
     NInf PInf [] = (Fin 1, [PInf, NInf])"
proof -
  let ?d = "\<lparr>mean = Fin 1, standardDeviation = Fin 2, erf = chebyshevErf\<rparr>"
  have h: "NormalDistribution_of (Some (Fin 1)) (Some (Fin 2)) (Given chebyshevErf) = Inr ?d"
    by (simp add: NormalDistribution_of_def new_NormalDistribution_def default_number_def
        default_arg_def Number_isNaN_def)
  have c: "cdf ?d PInf - cdf ?d NInf = Fin 1"
    by (simp add: cdf_def standardize_def SQRT1_2_def chebyshevErf_def strict_eq_def
        minus_number_def sign_inf_def Let_def)
  from h have h': "NormalDistribution_of (Some (Fin 1)) (Some (Fin 2)) (Given chebyshevErf) = Inr ?d
     \<or> NormalDistribution_standard (Given chebyshevErf) = Inr ?d"
    by simp
  show ?thesis
    using h c between_spec [OF h', of "Fin 3" "Fin 3" "[]"]
      between_spec [OF h', of PInf "Fin 3" "[]"]
      between_spec [OF h', of NInf PInf "[]"]
    by simp
qed

section \<open>Construction\<close>

text \<open>
  Claim C2, as stated, has the factories throw when the \<open>erf\<close> argument is undefined. They
  do not: the default parameter value replaces an undefined \<open>erf\<close> by the Chebyshev
  approximation before the constructor's test, and construction succeeds.
\<close>

theorem construction_erf_undefined:
  "NormalDistribution_of (Some (Fin 0)) (Some (Fin 1)) Undefined =
     Inr \<lparr>mean = Fin 0, standardDeviation = Fin 1, erf = chebyshevErf\<rparr> \<and>
   NormalDistribution_standard Undefined =
     Inr \<lparr>mean = Fin 0, standardDeviation = Fin 1, erf = chebyshevErf\<rparr>"
  by (simp add: NormalDistribution_of_def NormalDistribution_standard_def
      new_NormalDistribution_def default_number_def default_arg_def Number_isNaN_def)

text \<open>
  Claim C2, amended. With \<open>m\<close> and \<open>sd\<close> the mean and the standard deviation after
  defaulting (0 and 1), \<open>NormalDistribution.of\<close> throws exactly when \<open>m\<close> is NaN, \<open>sd\<close> is NaN,
  \<open>sd \<le> 0\<close> or the \<open>erf\<close> argument is null; the message thrown for a non-positive \<open>sd\<close>
  contains \<open>sd\<close>; in every other case the result has the fields \<open>m\<close>, \<open>sd\<close> and the given
  \<open>erf\<close>, or the Chebyshev approximation when \<open>erf\<close> is undefined.
  \<open>NormalDistribution.standard\<close> throws exactly when its argument is null and otherwise
  returns mean 0, standard deviation 1 and the same choice of \<open>erf\<close>.
\<close>

theorem construction_validation:
  "(isl (NormalDistribution_of mean_arg sd_arg erf_arg) \<longleftrightarrow>
      default_number mean_arg (Fin 0) = NaN \<or> default_number sd_arg (Fin 1) = NaN \<or>
      default_number sd_arg (Fin 1) \<le> Fin 0 \<or> erf_arg = Null) \<and>
   (default_number mean_arg (Fin 0) \<noteq> NaN \<and> default_number sd_arg (Fin 1) \<le> Fin 0 \<longrightarrow>
      (\<exists>t. NormalDistribution_of mean_arg sd_arg erf_arg = Inl t \<and>
           Val (default_number sd_arg (Fin 1)) \<in> set (message t))) \<and>
   (\<not> (default_number mean_arg (Fin 0) = NaN \<or> default_number sd_arg (Fin 1) = NaN \<or>
       default_number sd_arg (Fin 1) \<le> Fin 0 \<or> erf_arg = Null) \<longrightarrow>
      NormalDistribution_of mean_arg sd_arg erf_arg =
        Inr \<lparr>mean = default_number mean_arg (Fin 0),
             standardDeviation = default_number sd_arg (Fin 1),
             erf = (case erf_arg of Given f \<Rightarrow> f | _ \<Rightarrow> chebyshevErf)\<rparr>) \<and>
   (isl (NormalDistribution_standard erf_arg) \<longleftrightarrow> erf_arg = Null) \<and>
   (erf_arg \<noteq> Null \<longrightarrow>
      NormalDistribution_standard erf_arg =
        Inr \<lparr>mean = Fin 0, standardDeviation = Fin 1,
             erf = (case erf_arg of Given f \<Rightarrow> f | _ \<Rightarrow> chebyshevErf)\<rparr>)"
  by (cases erf_arg; cases "default_number sd_arg (Fin 1)")
     (auto simp add: NormalDistribution_of_def NormalDistribution_standard_def
      new_NormalDistribution_def default_arg_def Number_isNaN_def Let_def default_number_def)

theorem construction_validation_witness:
  "isl (NormalDistribution_of (Some (Fin 0)) (Some (Fin (- 1))) (Given vazquezLealErf)) \<and>
   (\<exists>t. NormalDistribution_of (Some (Fin 0)) (Some (Fin (- 1))) (Given vazquezLealErf) = Inl t \<and>
        Val (Fin (- 1)) \<in> set (message t)) \<and>
   isl (NormalDistribution_of (Some NaN) (Some (Fin 1)) Undefined) \<and>
   isl (NormalDistribution_of (Some (Fin 0)) (Some (Fin 0)) Undefined) \<and>
   isl (NormalDistribution_of (Some (Fin 0)) (Some (Fin 1)) Null) \<and>
   NormalDistribution_of None None (Given vazquezLealErf) =
     Inr \<lparr>mean = Fin 0, standardDeviation = Fin 1, erf = vazquezLealErf\<rparr> \<and>
   NormalDistribution_of (Some (Fin 3)) (Some (Fin 2)) Undefined =
     Inr \<lparr>mean = Fin 3, standardDeviation = Fin 2, erf = chebyshevErf\<rparr> \<and>
   isl (NormalDistribution_standard Null) \<and>
   NormalDistribution_standard (Given vazquezLealErf) =
     Inr \<lparr>mean = Fin 0, standardDeviation = Fin 1, erf = vazquezLealErf\<rparr>"
  using construction_validation [of "Some (Fin 0)" "Some (Fin (- 1))" "Given vazquezLealErf"]
    construction_validation [of "Some NaN" "Some (Fin 1)" Undefined]
    construction_validation [of "Some (Fin 0)" "Some (Fin 0)" Undefined]
    construction_validation [of "Some (Fin 0)" "Some (Fin 1)" Null]
    construction_validation [of None None "Given vazquezLealErf"]
    construction_validation [of "Some (Fin 3)" "Some (Fin 2)" Undefined]
  by (simp add: default_number_def)

section \<open>The limits of the approximations\<close>

lemma vazquezLealErf_infinities:
  "vazquezLealErf PInf = Fin 1 \<and> vazquezLealErf NInf = Fin (- 1)"
  by (simp add: vazquezLealErf_def Let_def sign_inf_def minus_number_def)

text \<open>
  Claim C4 fails at \<open>-\<infinity>\<close>: the test \<^verbatim>\<open>x4 === Infinity\<close> returns \<open>1\<close> before the sign of
  \<open>x\<close> is looked at, so \<open>soranzoErf\<close> is \<open>1\<close> at \<open>-\<infinity>\<close> as well as at \<open>+\<infinity>\<close>, and
  \<open>soranzoErf (+\<infinity>)\<close> is not \<open>- soranzoErf (-\<infinity>)\<close>.
\<close>

theorem soranzoErf_at_minus_infinity:
  "soranzoErf NInf = Fin 1 \<and> soranzoErf PInf = Fin 1 \<and>
   \<not> strict_eq (soranzoErf PInf) (- soranzoErf NInf)"
  by (simp add: soranzoErf_def strict_eq_def)

section \<open>isNormalDistributed\<close>

lemma not_ge_iff_less: "x \<noteq> NaN \<Longrightarrow> y \<noteq> NaN \<Longrightarrow> \<not> x \<ge> y \<longleftrightarrow> x < (y :: number)"
  by (cases x; cases y) auto

text \<open>
  The validation fails in the cases in which construction fails on the same mean and
  standard deviation, though not with the same thrown values; and on a \<open>cdf\<close> whose band
  values are numbers, with a tolerance that is a number, the result is true exactly when
  every band is strictly within the tolerance.
\<close>

lemma isNormalDistributed_validation:
  "isl (isNormalDistributed c m sd tol) \<longleftrightarrow>
   isl (NormalDistribution_of (Some m) (Some sd) (Given f))"
  by (simp add: isNormalDistributed_def NormalDistribution_of_def new_NormalDistribution_def
      default_number_def default_arg_def Let_def)

lemma isNormalDistributed_bands:
  assumes "m \<noteq> NaN" "sd \<noteq> NaN" "\<not> sd \<le> Fin 0"
    and "default_number tol default_tolerance \<noteq> NaN"
    and "c (m + sd) - c (m - sd) \<noteq> NaN"
    and "c (m + Fin 2 * sd) - c (m - Fin 2 * sd) \<noteq> NaN"
    and "c (m + Fin 3 * sd) - c (m - Fin 3 * sd) \<noteq> NaN"
  shows "isNormalDistributed c m sd tol =
    Inr (Math_abs (c (m + sd) - c (m - sd) - Fin 0.6826894772086507)
           < default_number tol default_tolerance \<and>
         Math_abs (c (m + Fin 2 * sd) - c (m - Fin 2 * sd) - Fin 0.954499740219751)
           < default_number tol default_tolerance \<and>
         Math_abs (c (m + Fin 3 * sd) - c (m - Fin 3 * sd) - Fin 0.9973002038534888)
           < default_number tol default_tolerance)"
proof -
  have n: "Math_abs (x - Fin a) \<noteq> NaN" if "x \<noteq> NaN" for x a
    using that by (cases x) (simp_all add: minus_number_def)
  show ?thesis
    using assms
    by (simp add: isNormalDistributed_def Number_isNaN_def Let_def
        not_ge_iff_less [symmetric] n del: Math_abs.simps)
qed

text \<open>
  Claim C7 fails on a \<open>cdf\<close> that returns NaN: every test \<^verbatim>\<open>Math.abs(...) >= tolerance\<close> is
  false on NaN, no band fails, and the result is true although no band is within the
  tolerance of its constant.
\<close>

theorem isNormalDistributed_NaN_cdf:
  "isNormalDistributed (\<lambda>x. NaN) (Fin 0) (Fin 1) None = Inr True"
  by (simp add: isNormalDistributed_def Number_isNaN_def Let_def default_number_def)

section \<open>factorial\<close>

lemma td_int:
  assumes "a * b = of_int c" "0 < c" "c < 2 ^ 53"
  shows "times_double (Fin a) (Fin b) = Fin (of_int c)"
  using round_double_int [OF assms(2,3)] by (simp add: times_double_Fin assms(1))

lemma td_eval:
  assumes "2 ^ 52 * 2 ^ j \<le> a * b" "a * b < 2 ^ 53 * 2 ^ j" "j \<le> 970"
    and "\<bar>a * b - of_int m * 2 ^ j\<bar> * 2 < 2 ^ j"
  shows "times_double (Fin a) (Fin b) = Fin (of_int m * 2 ^ j)"
  unfolding times_double_Fin using assms by (rule round_double_eval)

lemma and_not_15: "and (k::int) (not 15) = 16 * (k div 16)"
proof -
  have m: "(15::int) = mask 4"
    by (simp add: mask_eq_exp_minus_1)
  have "and k (not (mask 4)) = push_bit 4 (drop_bit 4 k)"
    by (rule bit_eqI) (auto simp add: bit_simps)
  then show ?thesis
    by (simp add: m push_bit_eq_mult drop_bit_eq_div)
qed

lemma and_minus_16: "and (k::int) (- 16) = 16 * (k div 16)"
  using and_not_15 [of k] by simp

lemma ToInt32_small: "0 \<le> k \<Longrightarrow> k \<le> 170 \<Longrightarrow> ToInt32 (Fin (of_int k)) = k"
  by (simp add: ToInt32_def signed_take_bit_int_eq_self)

lemma factorial_negative: "x < Fin 0 \<Longrightarrow> isl (factorial x)"
  by (simp add: factorial_def)

lemma factorial_NaN: "factorial NaN = Inr NaN"
  by (simp add: factorial_def Number_isNaN_def)

lemma factorial_overflow: "Math_floor x > Fin 170 \<Longrightarrow> factorial x = Inr PInf"
  by (cases x) (auto simp add: factorial_def Number_isNaN_def MAX_FACTORIAL_ARG_def Let_def)

lemma factorial_unfold:
  assumes "0 \<le> \<lfloor>a\<rfloor>" "\<lfloor>a\<rfloor> \<le> 170"
  shows "factorial (Fin a) =
    Inr (times_double
          (factorial_loop (16 * (\<lfloor>a\<rfloor> div 16) + 1) (of_int \<lfloor>a\<rfloor>) (Fin 1))
          (array_get everySinxteenthFactorial (\<lfloor>a\<rfloor> div 16)))"
proof -
  from assms have a: "\<not> a < 0" by linarith
  from assms have b: "\<not> 170 < real_of_int \<lfloor>a\<rfloor>" by linarith
  have c: "ToInt32 (Fin (of_int \<lfloor>a\<rfloor>)) = \<lfloor>a\<rfloor>"
    using assms by (rule ToInt32_small)
  show ?thesis
    using a b
    by (simp add: factorial_def Number_isNaN_def MAX_FACTORIAL_ARG_def Let_def c and_not_15
        and_minus_16 add.commute drop_bit_eq_div)
qed

lemma array_get_literal:
  "array_get [a0, a1, a2, a3, a4, a5, a6, a7, a8, a9, a10] 0 = a0"
  "array_get [a0, a1, a2, a3, a4, a5, a6, a7, a8, a9, a10] 1 = a1"
  "array_get [a0, a1, a2, a3, a4, a5, a6, a7, a8, a9, a10] 2 = a2"
  "array_get [a0, a1, a2, a3, a4, a5, a6, a7, a8, a9, a10] 3 = a3"
  "array_get [a0, a1, a2, a3, a4, a5, a6, a7, a8, a9, a10] 4 = a4"
  "array_get [a0, a1, a2, a3, a4, a5, a6, a7, a8, a9, a10] 5 = a5"
  "array_get [a0, a1, a2, a3, a4, a5, a6, a7, a8, a9, a10] 6 = a6"
  "array_get [a0, a1, a2, a3, a4, a5, a6, a7, a8, a9, a10] 7 = a7"
  "array_get [a0, a1, a2, a3, a4, a5, a6, a7, a8, a9, a10] 8 = a8"
  "array_get [a0, a1, a2, a3, a4, a5, a6, a7, a8, a9, a10] 9 = a9"
  "array_get [a0, a1, a2, a3, a4, a5, a6, a7, a8, a9, a10] 10 = a10"
  by (simp_all add: array_get_def)

lemma table_nth:
  "array_get everySinxteenthFactorial 0 = round_double 1"
  "array_get everySinxteenthFactorial 1 = round_double 20922789888000"
  "array_get everySinxteenthFactorial 2 = round_double (2631308369336935 * 10 ^ 20)"
  "array_get everySinxteenthFactorial 3 = round_double (12413915592536073 * 10 ^ 45)"
  "array_get everySinxteenthFactorial 4 = round_double (12688693218588417 * 10 ^ 73)"
  "array_get everySinxteenthFactorial 5 = round_double (7156945704626381 * 10 ^ 103)"
  "array_get everySinxteenthFactorial 6 = round_double (9916779348709496 * 10 ^ 134)"
  "array_get everySinxteenthFactorial 7 = round_double (1974506857221074 * 10 ^ 167)"
  "array_get everySinxteenthFactorial 8 = round_double (3856204823625804 * 10 ^ 200)"
  "array_get everySinxteenthFactorial 9 = round_double (55502938327393044 * 10 ^ 233)"
  "array_get everySinxteenthFactorial 10 = round_double (47147236359920616 * 10 ^ 268)"
  unfolding everySinxteenthFactorial_def by (rule array_get_literal)+

lemma table_values:
  "round_double 1 = Fin 1"
  "round_double 20922789888000 = Fin 20922789888000"
  "round_double (2631308369336935 * 10 ^ 20) = Fin 263130836933693517766352317727113216"
proof -
  show "round_double 1 = Fin 1"
    using round_double_int [of 1] by simp
  show "round_double 20922789888000 = Fin 20922789888000"
    using round_double_int [of 20922789888000] by simp
  show "round_double (2631308369336935 * 10 ^ 20) = Fin 263130836933693517766352317727113216"
    using round_double_eval [of 65 "2631308369336935 * 10 ^ 20" 7132175626285988] by simp
qed

lemma factorial_products:
  "times_double (Fin 1) (Fin 1) = Fin 1"
  "times_double (Fin 1) (Fin 2) = Fin 2"
  "times_double (Fin 2) (Fin 3) = Fin 6"
  "times_double (Fin 6) (Fin 4) = Fin 24"
  "times_double (Fin 24) (Fin 5) = Fin 120"
  "times_double (Fin 120) (Fin 6) = Fin 720"
  "times_double (Fin 720) (Fin 7) = Fin 5040"
  "times_double (Fin 5040) (Fin 8) = Fin 40320"
  "times_double (Fin 40320) (Fin 9) = Fin 362880"
  "times_double (Fin 362880) (Fin 10) = Fin 3628800"
  "times_double (Fin 3628800) (Fin 11) = Fin 39916800"
  "times_double (Fin 39916800) (Fin 12) = Fin 479001600"
  "times_double (Fin 479001600) (Fin 13) = Fin 6227020800"
  "times_double (Fin 6227020800) (Fin 14) = Fin 87178291200"
  "times_double (Fin 87178291200) (Fin 15) = Fin 1307674368000"
  "times_double (Fin 1) (Fin 17) = Fin 17"
  "times_double (Fin 17) (Fin 18) = Fin 306"
  "times_double (Fin 306) (Fin 19) = Fin 5814"
  "times_double (Fin 5814) (Fin 20) = Fin 116280"
  "times_double (Fin 116280) (Fin 21) = Fin 2441880"
  "times_double (Fin 2441880) (Fin 22) = Fin 53721360"
  "times_double (Fin 53721360) (Fin 23) = Fin 1235591280"
  "times_double (Fin 1235591280) (Fin 24) = Fin 29654190720"
  "times_double (Fin 29654190720) (Fin 25) = Fin 741354768000"
  "times_double (Fin 741354768000) (Fin 26) = Fin 19275223968000"
  "times_double (Fin 19275223968000) (Fin 27) = Fin 520431047136000"
  "times_double (Fin 520431047136000) (Fin 28) = Fin 14572069319808000"
  "times_double (Fin 14572069319808000) (Fin 29) = Fin 422590010274432000"
  "times_double (Fin 422590010274432000) (Fin 30) = Fin 12677700308232960000"
  "times_double (Fin 12677700308232960000) (Fin 31) = Fin 393008709555221757952"
  "times_double (Fin 1) (Fin 33) = Fin 33"
  "times_double (Fin 33) (Fin 34) = Fin 1122"
  "times_double (Fin 1122) (Fin 35) = Fin 39270"
  "times_double (Fin 39270) (Fin 36) = Fin 1413720"
  "times_double (Fin 1413720) (Fin 37) = Fin 52307640"
  "times_double (Fin 52307640) (Fin 38) = Fin 1987690320"
  "times_double (Fin 1987690320) (Fin 39) = Fin 77519922480"
  "times_double (Fin 77519922480) (Fin 40) = Fin 3100796899200"
  "times_double (Fin 2) (Fin 1) = Fin 2"
  "times_double (Fin 6) (Fin 1) = Fin 6"
  "times_double (Fin 24) (Fin 1) = Fin 24"
  "times_double (Fin 120) (Fin 1) = Fin 120"
  "times_double (Fin 720) (Fin 1) = Fin 720"
  "times_double (Fin 5040) (Fin 1) = Fin 5040"
  "times_double (Fin 40320) (Fin 1) = Fin 40320"
  "times_double (Fin 362880) (Fin 1) = Fin 362880"
  "times_double (Fin 3628800) (Fin 1) = Fin 3628800"
  "times_double (Fin 39916800) (Fin 1) = Fin 39916800"
  "times_double (Fin 479001600) (Fin 1) = Fin 479001600"
  "times_double (Fin 6227020800) (Fin 1) = Fin 6227020800"
  "times_double (Fin 87178291200) (Fin 1) = Fin 87178291200"
  "times_double (Fin 1307674368000) (Fin 1) = Fin 1307674368000"
  "times_double (Fin 1) (Fin 20922789888000) = Fin 20922789888000"
  "times_double (Fin 17) (Fin 20922789888000) = Fin 355687428096000"
  "times_double (Fin 306) (Fin 20922789888000) = Fin 6402373705728000"
  "times_double (Fin 5814) (Fin 20922789888000) = Fin 121645100408832000"
  "times_double (Fin 116280) (Fin 20922789888000) = Fin 2432902008176640000"
  "times_double (Fin 2441880) (Fin 20922789888000) = Fin 51090942171709440000"
  "times_double (Fin 53721360) (Fin 20922789888000) = Fin 1124000727777607680000"
  "times_double (Fin 1235591280) (Fin 20922789888000) = Fin 25852016738884978212864"
  "times_double (Fin 29654190720) (Fin 20922789888000) = Fin 620448401733239409999872"
  "times_double (Fin 741354768000) (Fin 20922789888000) = Fin 15511210043330986055303168"
  "times_double (Fin 19275223968000) (Fin 20922789888000) = Fin 403291461126605650322784256"
  "times_double (Fin 520431047136000) (Fin 20922789888000) = Fin 10888869450418351940239884288"
  "times_double (Fin 14572069319808000) (Fin 20922789888000) = Fin 304888344611713871918902804480"
  "times_double (Fin 422590010274432000) (Fin 20922789888000) = Fin 8841761993739701898620088352768"
  "times_double (Fin 12677700308232960000) (Fin 20922789888000) = Fin 265252859812191068217601719009280"
  "times_double (Fin 393008709555221757952) (Fin 20922789888000) = Fin 8222838654177922430198509928972288"
  "times_double (Fin 1) (Fin 263130836933693517766352317727113216) = Fin 263130836933693517766352317727113216"
  "times_double (Fin 33) (Fin 263130836933693517766352317727113216) = Fin 8683317618811885938715673895318323200"
  "times_double (Fin 1122) (Fin 263130836933693517766352317727113216) = Fin 295232799039604119555149671006000381952"
  "times_double (Fin 39270) (Fin 263130836933693517766352317727113216) = Fin 10333147966386144222209170348167175077888"
  "times_double (Fin 1413720) (Fin 263130836933693517766352317727113216) = Fin 371993326789901177492420297158468206329856"
  "times_double (Fin 52307640) (Fin 263130836933693517766352317727113216) = Fin 13763753091226345578872114833606270345281536"
  "times_double (Fin 1987690320) (Fin 263130836933693517766352317727113216) = Fin 523022617466601117141859892252474974331207680"
  "times_double (Fin 77519922480) (Fin 263130836933693517766352317727113216) = Fin 20397882081197441587828472941238084160318341120"
  "times_double (Fin 3100796899200) (Fin 263130836933693517766352317727113216) = Fin 815915283247897683795548521301193790359984930816"
proof -
  show "times_double (Fin 1) (Fin 1) = Fin 1"
    using td_int [of 1 1 1] by simp
  show "times_double (Fin 1) (Fin 2) = Fin 2"
    using td_int [of 1 2 2] by simp
  show "times_double (Fin 2) (Fin 3) = Fin 6"
    using td_int [of 2 3 6] by simp
  show "times_double (Fin 6) (Fin 4) = Fin 24"
    using td_int [of 6 4 24] by simp
  show "times_double (Fin 24) (Fin 5) = Fin 120"
    using td_int [of 24 5 120] by simp
  show "times_double (Fin 120) (Fin 6) = Fin 720"
    using td_int [of 120 6 720] by simp
  show "times_double (Fin 720) (Fin 7) = Fin 5040"
    using td_int [of 720 7 5040] by simp
  show "times_double (Fin 5040) (Fin 8) = Fin 40320"
    using td_int [of 5040 8 40320] by simp
  show "times_double (Fin 40320) (Fin 9) = Fin 362880"
    using td_int [of 40320 9 362880] by simp
  show "times_double (Fin 362880) (Fin 10) = Fin 3628800"
    using td_int [of 362880 10 3628800] by simp
  show "times_double (Fin 3628800) (Fin 11) = Fin 39916800"
    using td_int [of 3628800 11 39916800] by simp
  show "times_double (Fin 39916800) (Fin 12) = Fin 479001600"
    using td_int [of 39916800 12 479001600] by simp
  show "times_double (Fin 479001600) (Fin 13) = Fin 6227020800"
    using td_int [of 479001600 13 6227020800] by simp
  show "times_double (Fin 6227020800) (Fin 14) = Fin 87178291200"
    using td_int [of 6227020800 14 87178291200] by simp
  show "times_double (Fin 87178291200) (Fin 15) = Fin 1307674368000"
    using td_int [of 87178291200 15 1307674368000] by simp
  show "times_double (Fin 1) (Fin 17) = Fin 17"
    using td_int [of 1 17 17] by simp
  show "times_double (Fin 17) (Fin 18) = Fin 306"
    using td_int [of 17 18 306] by simp
  show "times_double (Fin 306) (Fin 19) = Fin 5814"
    using td_int [of 306 19 5814] by simp
  show "times_double (Fin 5814) (Fin 20) = Fin 116280"
    using td_int [of 5814 20 116280] by simp
  show "times_double (Fin 116280) (Fin 21) = Fin 2441880"
    using td_int [of 116280 21 2441880] by simp
  show "times_double (Fin 2441880) (Fin 22) = Fin 53721360"
    using td_int [of 2441880 22 53721360] by simp
  show "times_double (Fin 53721360) (Fin 23) = Fin 1235591280"
    using td_int [of 53721360 23 1235591280] by simp
  show "times_double (Fin 1235591280) (Fin 24) = Fin 29654190720"
    using td_int [of 1235591280 24 29654190720] by simp
  show "times_double (Fin 29654190720) (Fin 25) = Fin 741354768000"
    using td_int [of 29654190720 25 741354768000] by simp
  show "times_double (Fin 741354768000) (Fin 26) = Fin 19275223968000"
    using td_int [of 741354768000 26 19275223968000] by simp
  show "times_double (Fin 19275223968000) (Fin 27) = Fin 520431047136000"
    using td_int [of 19275223968000 27 520431047136000] by simp
  show "times_double (Fin 520431047136000) (Fin 28) = Fin 14572069319808000"
    using td_eval [of 1 520431047136000 28 7286034659904000] by simp
  show "times_double (Fin 14572069319808000) (Fin 29) = Fin 422590010274432000"
    using td_eval [of 6 14572069319808000 29 6602968910538000] by simp
  show "times_double (Fin 422590010274432000) (Fin 30) = Fin 12677700308232960000"
    using td_eval [of 11 422590010274432000 30 6190283353629375] by simp
  show "times_double (Fin 12677700308232960000) (Fin 31) = Fin 393008709555221757952"
    using td_eval [of 16 12677700308232960000 31 5996836998828457] by simp
  show "times_double (Fin 1) (Fin 33) = Fin 33"
    using td_int [of 1 33 33] by simp
  show "times_double (Fin 33) (Fin 34) = Fin 1122"
    using td_int [of 33 34 1122] by simp
  show "times_double (Fin 1122) (Fin 35) = Fin 39270"
    using td_int [of 1122 35 39270] by simp
  show "times_double (Fin 39270) (Fin 36) = Fin 1413720"
    using td_int [of 39270 36 1413720] by simp
  show "times_double (Fin 1413720) (Fin 37) = Fin 52307640"
    using td_int [of 1413720 37 52307640] by simp
  show "times_double (Fin 52307640) (Fin 38) = Fin 1987690320"
    using td_int [of 52307640 38 1987690320] by simp
  show "times_double (Fin 1987690320) (Fin 39) = Fin 77519922480"
    using td_int [of 1987690320 39 77519922480] by simp
  show "times_double (Fin 77519922480) (Fin 40) = Fin 3100796899200"
    using td_int [of 77519922480 40 3100796899200] by simp
  show "times_double (Fin 2) (Fin 1) = Fin 2"
    using td_int [of 2 1 2] by simp
  show "times_double (Fin 6) (Fin 1) = Fin 6"
    using td_int [of 6 1 6] by simp
  show "times_double (Fin 24) (Fin 1) = Fin 24"
    using td_int [of 24 1 24] by simp
  show "times_double (Fin 120) (Fin 1) = Fin 120"
    using td_int [of 120 1 120] by simp
  show "times_double (Fin 720) (Fin 1) = Fin 720"
    using td_int [of 720 1 720] by simp
  show "times_double (Fin 5040) (Fin 1) = Fin 5040"
    using td_int [of 5040 1 5040] by simp
  show "times_double (Fin 40320) (Fin 1) = Fin 40320"
    using td_int [of 40320 1 40320] by simp
  show "times_double (Fin 362880) (Fin 1) = Fin 362880"
    using td_int [of 362880 1 362880] by simp
  show "times_double (Fin 3628800) (Fin 1) = Fin 3628800"
    using td_int [of 3628800 1 3628800] by simp
  show "times_double (Fin 39916800) (Fin 1) = Fin 39916800"
    using td_int [of 39916800 1 39916800] by simp
  show "times_double (Fin 479001600) (Fin 1) = Fin 479001600"
    using td_int [of 479001600 1 479001600] by simp
  show "times_double (Fin 6227020800) (Fin 1) = Fin 6227020800"
    using td_int [of 6227020800 1 6227020800] by simp
  show "times_double (Fin 87178291200) (Fin 1) = Fin 87178291200"
    using td_int [of 87178291200 1 87178291200] by simp
  show "times_double (Fin 1307674368000) (Fin 1) = Fin 1307674368000"
    using td_int [of 1307674368000 1 1307674368000] by simp
  show "times_double (Fin 1) (Fin 20922789888000) = Fin 20922789888000"
    using td_int [of 1 20922789888000 20922789888000] by simp
  show "times_double (Fin 17) (Fin 20922789888000) = Fin 355687428096000"
    using td_int [of 17 20922789888000 355687428096000] by simp
  show "times_double (Fin 306) (Fin 20922789888000) = Fin 6402373705728000"
    using td_int [of 306 20922789888000 6402373705728000] by simp
  show "times_double (Fin 5814) (Fin 20922789888000) = Fin 121645100408832000"
    using td_eval [of 4 5814 20922789888000 7602818775552000] by simp
  show "times_double (Fin 116280) (Fin 20922789888000) = Fin 2432902008176640000"
    using td_eval [of 9 116280 20922789888000 4751761734720000] by simp
  show "times_double (Fin 2441880) (Fin 20922789888000) = Fin 51090942171709440000"
    using td_eval [of 13 2441880 20922789888000 6236687276820000] by simp
  show "times_double (Fin 53721360) (Fin 20922789888000) = Fin 1124000727777607680000"
    using td_eval [of 17 53721360 20922789888000 8575445005627500] by simp
  show "times_double (Fin 1235591280) (Fin 20922789888000) = Fin 25852016738884978212864"
    using td_eval [of 22 1235591280 20922789888000 6163601097794766] by simp
  show "times_double (Fin 29654190720) (Fin 20922789888000) = Fin 620448401733239409999872"
    using td_eval [of 27 29654190720 20922789888000 4622700823346074] by simp
  show "times_double (Fin 741354768000) (Fin 20922789888000) = Fin 15511210043330986055303168"
    using td_eval [of 31 741354768000 20922789888000 7222970036478241] by simp
  show "times_double (Fin 19275223968000) (Fin 20922789888000) = Fin 403291461126605650322784256"
    using td_eval [of 36 19275223968000 20922789888000 5868663154638571] by simp
  show "times_double (Fin 520431047136000) (Fin 20922789888000) = Fin 10888869450418351940239884288"
    using td_eval [of 41 520431047136000 20922789888000 4951684536726294] by simp
  show "times_double (Fin 14572069319808000) (Fin 20922789888000) = Fin 304888344611713871918902804480"
    using td_eval [of 45 14572069319808000 20922789888000 8665447939271015] by simp
  show "times_double (Fin 422590010274432000) (Fin 20922789888000) = Fin 8841761993739701898620088352768"
    using td_eval [of 50 422590010274432000 20922789888000 7853062194964357] by simp
  show "times_double (Fin 12677700308232960000) (Fin 20922789888000) = Fin 265252859812191068217601719009280"
    using td_eval [of 55 12677700308232960000 20922789888000 7362245807779085] by simp
  show "times_double (Fin 393008709555221757952) (Fin 20922789888000) = Fin 8222838654177922430198509928972288"
    using td_eval [of 60 393008709555221757952 20922789888000 7132175626285988] by simp
  show "times_double (Fin 1) (Fin 263130836933693517766352317727113216) = Fin 263130836933693517766352317727113216"
    using td_eval [of 65 1 263130836933693517766352317727113216 7132175626285988] by simp
  show "times_double (Fin 33) (Fin 263130836933693517766352317727113216) = Fin 8683317618811885938715673895318323200"
    using td_eval [of 70 33 263130836933693517766352317727113216 7355056114607425] by simp
  show "times_double (Fin 1122) (Fin 263130836933693517766352317727113216) = Fin 295232799039604119555149671006000381952"
    using td_eval [of 75 1122 263130836933693517766352317727113216 7814747121770389] by simp
  show "times_double (Fin 39270) (Fin 263130836933693517766352317727113216) = Fin 10333147966386144222209170348167175077888"
    using td_eval [of 80 39270 263130836933693517766352317727113216 8547379664436363] by simp
  show "times_double (Fin 1413720) (Fin 263130836933693517766352317727113216) = Fin 371993326789901177492420297158468206329856"
    using td_eval [of 86 1413720 263130836933693517766352317727113216 4807901061245454] by simp
  show "times_double (Fin 52307640) (Fin 263130836933693517766352317727113216) = Fin 13763753091226345578872114833606270345281536"
    using td_eval [of 91 52307640 263130836933693517766352317727113216 5559135602065057] by simp
  show "times_double (Fin 1987690320) (Fin 263130836933693517766352317727113216) = Fin 523022617466601117141859892252474974331207680"
    using td_eval [of 96 1987690320 263130836933693517766352317727113216 6601473527452255] by simp
  show "times_double (Fin 77519922480) (Fin 263130836933693517766352317727113216) = Fin 20397882081197441587828472941238084160318341120"
    using td_eval [of 101 77519922480 263130836933693517766352317727113216 8045545861582435] by simp
  show "times_double (Fin 3100796899200) (Fin 263130836933693517766352317727113216) = Fin 815915283247897683795548521301193790359984930816"
    using td_eval [of 107 3100796899200 263130836933693517766352317727113216 5028466163489022] by simp
qed

lemma table_entries:
  "array_get everySinxteenthFactorial 0 = Fin 1"
  "array_get everySinxteenthFactorial 1 = Fin 20922789888000"
  "array_get everySinxteenthFactorial 2 = Fin 263130836933693517766352317727113216"
  by (simp_all only: table_nth table_values)

lemma factorial_values:
  "factorial (Fin 0) = Inr (Fin 1)"
  "factorial (Fin 1) = Inr (Fin 1)"
  "factorial (Fin 2) = Inr (Fin 2)"
  "factorial (Fin 3) = Inr (Fin 6)"
  "factorial (Fin 4) = Inr (Fin 24)"
  "factorial (Fin 5) = Inr (Fin 120)"
  "factorial (Fin 6) = Inr (Fin 720)"
  "factorial (Fin 7) = Inr (Fin 5040)"
  "factorial (Fin 8) = Inr (Fin 40320)"
  "factorial (Fin 9) = Inr (Fin 362880)"
  "factorial (Fin 10) = Inr (Fin 3628800)"
  "factorial (Fin 11) = Inr (Fin 39916800)"
  "factorial (Fin 12) = Inr (Fin 479001600)"
  "factorial (Fin 13) = Inr (Fin 6227020800)"
  "factorial (Fin 14) = Inr (Fin 87178291200)"
  "factorial (Fin 15) = Inr (Fin 1307674368000)"
  "factorial (Fin 16) = Inr (Fin 20922789888000)"
  "factorial (Fin 17) = Inr (Fin 355687428096000)"
  "factorial (Fin 18) = Inr (Fin 6402373705728000)"
  "factorial (Fin 19) = Inr (Fin 121645100408832000)"
  "factorial (Fin 20) = Inr (Fin 2432902008176640000)"
  "factorial (Fin 21) = Inr (Fin 51090942171709440000)"
  "factorial (Fin 22) = Inr (Fin 1124000727777607680000)"
  "factorial (Fin 23) = Inr (Fin 25852016738884978212864)"
  "factorial (Fin 24) = Inr (Fin 620448401733239409999872)"
  "factorial (Fin 25) = Inr (Fin 15511210043330986055303168)"
  "factorial (Fin 26) = Inr (Fin 403291461126605650322784256)"
  "factorial (Fin 27) = Inr (Fin 10888869450418351940239884288)"
  "factorial (Fin 28) = Inr (Fin 304888344611713871918902804480)"
  "factorial (Fin 29) = Inr (Fin 8841761993739701898620088352768)"
  "factorial (Fin 30) = Inr (Fin 265252859812191068217601719009280)"
  "factorial (Fin 31) = Inr (Fin 8222838654177922430198509928972288)"
  "factorial (Fin 32) = Inr (Fin 263130836933693517766352317727113216)"
  "factorial (Fin 33) = Inr (Fin 8683317618811885938715673895318323200)"
  "factorial (Fin 34) = Inr (Fin 295232799039604119555149671006000381952)"
  "factorial (Fin 35) = Inr (Fin 10333147966386144222209170348167175077888)"
  "factorial (Fin 36) = Inr (Fin 371993326789901177492420297158468206329856)"
  "factorial (Fin 37) = Inr (Fin 13763753091226345578872114833606270345281536)"
  "factorial (Fin 38) = Inr (Fin 523022617466601117141859892252474974331207680)"
  "factorial (Fin 39) = Inr (Fin 20397882081197441587828472941238084160318341120)"
  "factorial (Fin 40) = Inr (Fin 815915283247897683795548521301193790359984930816)"
  by (simp_all add: factorial_unfold factorial_loop.simps table_entries factorial_products)

lemma prod_above_fact:
  "m \<le> k \<Longrightarrow> 0 \<le> m \<Longrightarrow> (\<Prod>j = m + 1..k. real_of_int j) * fact (nat m) = fact (nat k)"
proof (induction k rule: int_ge_induct)
  case base
  then show ?case by simp
next
  case (step i)
  then have "{m + 1..i + 1} = insert (i + 1) {m + 1..i}" by auto
  then have "(\<Prod>j = m + 1..i + 1. real_of_int j) = real_of_int (i + 1) * (\<Prod>j = m + 1..i. real_of_int j)"
    by simp
  moreover from step have "nat (i + 1) = Suc (nat i)" by simp
  moreover from step have "real (Suc (nat i)) = real_of_int (i + 1)" by simp
  ultimately show ?case using step by (simp del: of_nat_Suc add: mult.assoc)
qed

lemma round_double_factor:
  assumes "1 \<le> x" "x < 2 ^ 1023"
  shows "\<exists>r. round_double x = Fin r \<and> 1 \<le> r \<and>
    x * (1 - unit_roundoff) \<le> r \<and> r \<le> x * (1 + unit_roundoff)"
proof -
  obtain r where r: "round_double x = Fin r" "\<bar>r - x\<bar> \<le> x / 2 ^ 53" "1 \<le> r"
    using round_double_rel [OF assms] by blast
  define d where "d = x / 2 ^ 53"
  have "x * (1 - unit_roundoff) = x - d" "x * (1 + unit_roundoff) = x + d"
    by (simp_all add: unit_roundoff_def d_def algebra_simps)
  moreover from r(2) have "x - d \<le> r" "r \<le> x + d"
    unfolding d_def [symmetric] by linarith+
  ultimately have "x * (1 - unit_roundoff) \<le> r" "r \<le> x * (1 + unit_roundoff)"
    by simp_all
  with r(1,3) show ?thesis
    by blast
qed

lemma unit_roundoff_bounds: "0 < 1 - unit_roundoff" "1 - unit_roundoff \<le> 1" "1 \<le> 1 + unit_roundoff"
  "0 \<le> unit_roundoff" "170 * (1 + unit_roundoff) \<le> 171"
  by (simp_all add: unit_roundoff_def)

lemma factorial_loop_accuracy:
  assumes "1 \<le> i" "k \<le> 170" "1 \<le> s" "s * 171 ^ nat (k + 1 - i) < 2 ^ 1023"
  shows "\<exists>r. factorial_loop i (of_int k) (Fin s) = Fin r \<and> 1 \<le> r \<and>
    s * (\<Prod>j = i..k. of_int j) * (1 - unit_roundoff) ^ nat (k + 1 - i) \<le> r \<and>
    r \<le> s * (\<Prod>j = i..k. of_int j) * (1 + unit_roundoff) ^ nat (k + 1 - i)"
  using assms
proof (induction i "of_int k :: real" "Fin s" arbitrary: s rule: factorial_loop.induct)
  case (1 index)
  show ?case
  proof (cases "index \<le> k")
    case False
    then have "factorial_loop index (of_int k) (Fin s) = Fin s"
      by (subst factorial_loop.simps) simp
    moreover from False have "nat (k + 1 - index) = 0" "{index..k} = {}"
      by simp_all
    ultimately show ?thesis
      using "1.prems" by simp
  next
    case True
    define c where "c = nat (k - index)"
    have c: "nat (k + 1 - index) = Suc c" "nat (k + 1 - (index + 1)) = c"
      using True by (simp_all add: c_def)
    define x where "x = s * of_int index"
    have i1: "1 \<le> real_of_int index" "real_of_int index \<le> 170"
      using "1.prems" True by simp_all
    have s0: "0 \<le> s" "0 < s"
      using "1.prems" by simp_all
    have x1: "1 \<le> x"
      unfolding x_def using "1.prems"(3) i1(1) by (metis mult_mono' mult_1 zero_le_one)
    have p: "(0::real) \<le> 171 ^ c" "(1::real) \<le> 171 ^ c"
      by simp_all
    have "x \<le> s * 171"
      unfolding x_def using s0 i1 by (intro mult_left_mono) simp_all
    also have "\<dots> \<le> s * 171 * 171 ^ c"
      using s0 p by (simp add: mult_le_cancel_left1)
    also have "\<dots> = s * 171 ^ Suc c"
      by simp
    also have "\<dots> < 2 ^ 1023"
      using "1.prems"(4) unfolding c(1) .
    finally have x2: "x < 2 ^ 1023" .
    obtain r1 where r1: "round_double x = Fin r1" "1 \<le> r1"
      "x * (1 - unit_roundoff) \<le> r1" "r1 \<le> x * (1 + unit_roundoff)"
      using round_double_factor [OF x1 x2] by blast
    have t: "times_double (Fin s) (Fin (of_int index)) = Fin r1"
      by (simp add: times_double_Fin r1(1) x_def [symmetric])
    have "r1 \<le> s * (real_of_int index * (1 + unit_roundoff))"
      using r1(4) by (simp add: x_def mult.assoc)
    also have "\<dots> \<le> s * 171"
    proof (intro mult_left_mono s0)
      have "real_of_int index * (1 + unit_roundoff) \<le> 170 * (1 + unit_roundoff)"
        using i1 unit_roundoff_bounds by (intro mult_right_mono) simp_all
      with unit_roundoff_bounds(5) show "real_of_int index * (1 + unit_roundoff) \<le> 171"
        by linarith
    qed
    finally have "r1 * 171 ^ c \<le> s * 171 * 171 ^ c"
      using p by (intro mult_right_mono) simp_all
    also have "\<dots> = s * 171 ^ Suc c"
      by simp
    also have "\<dots> < 2 ^ 1023"
      using "1.prems"(4) unfolding c(1) .
    finally have "r1 * 171 ^ c < 2 ^ 1023" .
    then have r1b: "r1 * 171 ^ nat (k + 1 - (index + 1)) < 2 ^ 1023"
      by (simp only: c(2))
    have i2: "1 \<le> index + 1"
      using "1.prems" by simp
    obtain r where r: "factorial_loop (index + 1) (of_int k) (Fin r1) = Fin r" "1 \<le> r"
      "r1 * (\<Prod>j = index + 1..k. of_int j) * (1 - unit_roundoff) ^ c \<le> r"
      "r \<le> r1 * (\<Prod>j = index + 1..k. of_int j) * (1 + unit_roundoff) ^ c"
    proof -
      have "real_of_int index \<le> real_of_int k"
        using True by simp
      from "1.hyps" [OF this t i2 "1.prems"(2) r1(2) r1b] show ?thesis
        unfolding c(2) using that by blast
    qed
    have l: "factorial_loop index (of_int k) (Fin s) = Fin r"
      using True by (subst factorial_loop.simps) (simp add: t r(1))
    define P' :: real where "P' = (\<Prod>j = index + 1..k. of_int j)"
    have "{index..k} = insert index {index + 1..k}"
      using True by auto
    then have P: "(\<Prod>j = index..k. real_of_int j) = of_int index * P'"
      by (simp add: P'_def)
    have P0: "0 \<le> P'"
      unfolding P'_def using "1.prems"(1) by (intro prod_nonneg) simp
    have lo: "0 \<le> P' * (1 - unit_roundoff) ^ c" "0 \<le> P' * (1 + unit_roundoff) ^ c"
      using P0 unit_roundoff_bounds by (simp_all add: mult_nonneg_nonneg)
    have "s * (of_int index * P') * (1 - unit_roundoff) ^ Suc c =
        x * (1 - unit_roundoff) * (P' * (1 - unit_roundoff) ^ c)"
      by (simp add: x_def mult_ac)
    also have "\<dots> \<le> r1 * (P' * (1 - unit_roundoff) ^ c)"
      using r1(3) lo by (intro mult_right_mono) simp_all
    also have "\<dots> \<le> r"
      using r(3) by (simp add: P'_def mult.assoc)
    finally have low: "s * (of_int index * P') * (1 - unit_roundoff) ^ Suc c \<le> r" .
    have "r \<le> r1 * (P' * (1 + unit_roundoff) ^ c)"
      using r(4) by (simp add: P'_def mult.assoc)
    also have "\<dots> \<le> x * (1 + unit_roundoff) * (P' * (1 + unit_roundoff) ^ c)"
      using r1(4) lo by (intro mult_right_mono) simp_all
    also have "\<dots> = s * (of_int index * P') * (1 + unit_roundoff) ^ Suc c"
      by (simp add: x_def mult_ac)
    finally have up: "r \<le> s * (of_int index * P') * (1 + unit_roundoff) ^ Suc c" .
    show ?thesis
      unfolding c P using l r(2) low up by blast
  qed
qed

lemma literal_accuracy:
  assumes "1 \<le> L" "L < 2 ^ 1023"
    and "F * (1 - unit_roundoff) ^ 2 \<le> L" "L \<le> F * (1 + unit_roundoff) ^ 2"
  shows "\<exists>t. round_double L = Fin t \<and> 1 \<le> t \<and>
    F * (1 - unit_roundoff) ^ 3 \<le> t \<and> t \<le> F * (1 + unit_roundoff) ^ 3"
proof -
  obtain t where t: "round_double L = Fin t" "1 \<le> t"
    "L * (1 - unit_roundoff) \<le> t" "t \<le> L * (1 + unit_roundoff)"
    using round_double_factor [OF assms(1,2)] by blast
  have "F * (1 - unit_roundoff) ^ 3 = F * (1 - unit_roundoff) ^ 2 * (1 - unit_roundoff)"
    by (simp add: power3_eq_cube power2_eq_square mult.assoc)
  also have "\<dots> \<le> L * (1 - unit_roundoff)"
    using assms(3) unit_roundoff_bounds by (intro mult_right_mono) simp_all
  finally have lo: "F * (1 - unit_roundoff) ^ 3 \<le> t"
    using t(3) by linarith
  have "L * (1 + unit_roundoff) \<le> F * (1 + unit_roundoff) ^ 2 * (1 + unit_roundoff)"
    using assms(4) unit_roundoff_bounds by (intro mult_right_mono) simp_all
  also have "\<dots> = F * (1 + unit_roundoff) ^ 3"
    by (simp add: power3_eq_cube power2_eq_square mult.assoc)
  finally have "t \<le> F * (1 + unit_roundoff) ^ 3"
    using t(4) by linarith
  with t lo show ?thesis
    by blast
qed

lemma fact_sixteenths:
  "fact 0 = (1 :: real)"
  "fact 16 = (20922789888000 :: real)"
  "fact 32 = (263130836933693530167218012160000000 :: real)"
  "fact 48 = (12413915592536072670862289047373375038521486354677760000000000 :: real)"
  "fact 64 = (126886932185884164103433389335161480802865516174545192198801894375214704230400000000000000 :: real)"
  "fact 80 = (71569457046263802294811533723186532165584657342365752577109445058227039255480148842668944867280814080000000000000000000 :: real)"
  "fact 96 = (991677934870949689209571401541893801158183648651267795444376054838492222809091499987689476037000748982075094738965754305639874560000000000000000000000 :: real)"
  "fact 112 = (197450685722107402353682037275992488341277868034975337796656295094902858969771811440894224355027779366597957338237853638272334919686385621811850780464277094400000000000000000000000000 :: real)"
  "fact 128 = (385620482362580421735677065923463640617493109590223590278828403276373402575165543560686168588507361534030051833058916347592172932262498857766114955245039357760034644709279247692495585280000000000000000000000000000000 :: real)"
  "fact 144 = (5550293832739304789551054660550388117999982337982762871343070903773209740507907044212761943998894132603029642967578724274573160149321818341878907651093495984407926316593053871805976798524658790357488383743402086236160000000000000000000000000000000000 :: real)"
  "fact 160 = (471472363599206132240694321176194377951192623045460204976904578317542573467421580346978030238114995699562728104819596262106947389303901748942909887857509625114880781313585012959529941660203611234871833992565791817698209861793313332044734813700096000000000000000000000000000000000000000 :: real)"
  by (simp_all add: fact_numeral)

lemma table_accuracy:
  assumes "0 \<le> q" "q \<le> 10"
  shows "\<exists>t. array_get everySinxteenthFactorial q = Fin t \<and> 1 \<le> t \<and>
    fact (nat (16 * q)) * (1 - unit_roundoff) ^ 3 \<le> t \<and>
    t \<le> fact (nat (16 * q)) * (1 + unit_roundoff) ^ 3"
proof -
  from assms have "q = 0 \<or> q = 1 \<or> q = 2 \<or> q = 3 \<or> q = 4 \<or> q = 5 \<or> q = 6
    \<or> q = 7 \<or> q = 8 \<or> q = 9 \<or> q = 10"
    by presburger
  then consider "q = 0" | "q = 1" | "q = 2" | "q = 3" | "q = 4" | "q = 5" | "q = 6"
    | "q = 7" | "q = 8" | "q = 9" | "q = 10"
    by blast
  then show ?thesis
  proof cases
    case 1
    show ?thesis
      unfolding 1 table_nth
      by (rule literal_accuracy [where F = "fact (nat (16 * 0))"])
        (simp_all add: unit_roundoff_def fact_sixteenths power_divide)
  next
    case 2
    show ?thesis
      unfolding 2 table_nth
      by (rule literal_accuracy [where F = "fact (nat (16 * 1))"])
        (simp_all add: unit_roundoff_def fact_sixteenths power_divide)
  next
    case 3
    show ?thesis
      unfolding 3 table_nth
      by (rule literal_accuracy [where F = "fact (nat (16 * 2))"])
        (simp_all add: unit_roundoff_def fact_sixteenths power_divide)
  next
    case 4
    show ?thesis
      unfolding 4 table_nth
      by (rule literal_accuracy [where F = "fact (nat (16 * 3))"])
        (simp_all add: unit_roundoff_def fact_sixteenths power_divide)
  next
    case 5
    show ?thesis
      unfolding 5 table_nth
      by (rule literal_accuracy [where F = "fact (nat (16 * 4))"])
        (simp_all add: unit_roundoff_def fact_sixteenths power_divide)
  next
    case 6
    show ?thesis
      unfolding 6 table_nth
      by (rule literal_accuracy [where F = "fact (nat (16 * 5))"])
        (simp_all add: unit_roundoff_def fact_sixteenths power_divide)
  next
    case 7
    show ?thesis
      unfolding 7 table_nth
      by (rule literal_accuracy [where F = "fact (nat (16 * 6))"])
        (simp_all add: unit_roundoff_def fact_sixteenths power_divide)
  next
    case 8
    show ?thesis
      unfolding 8 table_nth
      by (rule literal_accuracy [where F = "fact (nat (16 * 7))"])
        (simp_all add: unit_roundoff_def fact_sixteenths power_divide)
  next
    case 9
    show ?thesis
      unfolding 9 table_nth
      by (rule literal_accuracy [where F = "fact (nat (16 * 8))"])
        (simp_all add: unit_roundoff_def fact_sixteenths power_divide)
  next
    case 10
    show ?thesis
      unfolding 10 table_nth
      by (rule literal_accuracy [where F = "fact (nat (16 * 9))"])
        (simp_all add: unit_roundoff_def fact_sixteenths power_divide)
  next
    case 11
    show ?thesis
      unfolding 11 table_nth
      by (rule literal_accuracy [where F = "fact (nat (16 * 10))"])
        (simp_all add: unit_roundoff_def fact_sixteenths power_divide)
  qed
qed

lemma unit_roundoff_powers:
  "1 - 1 / 2 ^ 48 \<le> (1 - unit_roundoff) ^ 19" "(1 + unit_roundoff) ^ 19 \<le> 1 + 1 / 2 ^ 48"
  "1 - 1 / 2 ^ 49 \<le> (1 - unit_roundoff) ^ 15" "(1 + unit_roundoff) ^ 15 \<le> 1 + 1 / 2 ^ 49"
  "1 - 1 / 2 ^ 51 \<le> (1 - unit_roundoff) ^ 3" "(1 + unit_roundoff) ^ 3 \<le> 1 + 1 / 2 ^ 51"
  "(1 + unit_roundoff) ^ 18 \<le> 2" "(171 :: real) ^ 15 < 2 ^ 1023" "2 * fact 170 < (2 :: real) ^ 1023"
  by (simp_all add: unit_roundoff_def power_divide fact_numeral)

lemma relative_error:
  fixes F v :: real
  assumes "F * l \<le> v" "v \<le> F * h" "1 - 1 / 2 ^ k \<le> l" "h \<le> 1 + 1 / 2 ^ k" "0 \<le> F"
  shows "\<bar>v - F\<bar> \<le> F / 2 ^ k"
proof -
  define d where "d = F / 2 ^ k"
  have "F * (1 - 1 / 2 ^ k) = F - d" "F * (1 + 1 / 2 ^ k) = F + d"
    by (simp_all add: d_def algebra_simps)
  moreover have "F * (1 - 1 / 2 ^ k) \<le> F * l" "F * h \<le> F * (1 + 1 / 2 ^ k)"
    using assms(3,4,5) by (simp_all add: mult_left_mono)
  ultimately have "F - d \<le> v" "v \<le> F + d"
    using assms(1,2) by linarith+
  then have "\<bar>v - F\<bar> \<le> d"
    by linarith
  then show ?thesis
    unfolding d_def .
qed

lemma factorial_accuracy:
  assumes "0 \<le> \<lfloor>a\<rfloor>" "\<lfloor>a\<rfloor> \<le> 170"
  shows "\<exists>r t v.
    factorial_loop (16 * (\<lfloor>a\<rfloor> div 16) + 1) (of_int \<lfloor>a\<rfloor>) (Fin 1) = Fin r \<and>
    array_get everySinxteenthFactorial (\<lfloor>a\<rfloor> div 16) = Fin t \<and>
    times_double (Fin r) (Fin t) = Fin v \<and>
    factorial (Fin a) = Inr (Fin v) \<and>
    \<bar>r - (\<Prod>j = 16 * (\<lfloor>a\<rfloor> div 16) + 1..\<lfloor>a\<rfloor>. of_int j)\<bar> \<le>
      (\<Prod>j = 16 * (\<lfloor>a\<rfloor> div 16) + 1..\<lfloor>a\<rfloor>. of_int j) / 2 ^ 49 \<and>
    \<bar>t - fact (nat (16 * (\<lfloor>a\<rfloor> div 16)))\<bar> \<le> fact (nat (16 * (\<lfloor>a\<rfloor> div 16))) / 2 ^ 51 \<and>
    \<bar>v - fact (nat \<lfloor>a\<rfloor>)\<bar> \<le> fact (nat \<lfloor>a\<rfloor>) / 2 ^ 48"
proof -
  define n where "n = \<lfloor>a\<rfloor>"
  define q where "q = n div 16"
  define c where "c = nat (n + 1 - (16 * q + 1))"
  define P :: real where "P = (\<Prod>j = 16 * q + 1..n. of_int j)"
  define G :: real where "G = fact (nat (16 * q))"
  define F :: real where "F = fact (nat n)"
  define lo where "lo = 1 - unit_roundoff"
  define hi where "hi = 1 + unit_roundoff"
  have n: "0 \<le> n" "n \<le> 170"
    using assms by (simp_all add: n_def)
  have q: "0 \<le> q" "q \<le> 10" "16 * q \<le> n" "1 \<le> 16 * q + 1"
    using n by (simp_all add: q_def)
  have "n + 1 - (16 * q + 1) = n mod 16"
    unfolding q_def by (simp add: minus_mult_div_eq_mod)
  moreover have "n mod 16 < 16"
    by simp
  ultimately have c: "c \<le> 15"
    unfolding c_def by simp
  have b: "0 \<le> lo" "lo \<le> 1" "1 \<le> hi" "0 \<le> hi"
    using unit_roundoff_bounds by (simp_all add: lo_def hi_def)
  have "(171 :: real) ^ c \<le> 171 ^ 15"
    using c by (intro power_increasing) simp_all
  with unit_roundoff_powers(8) have "1 * (171 :: real) ^ nat (n + 1 - (16 * q + 1)) < 2 ^ 1023"
    unfolding c_def [symmetric] by linarith
  from factorial_loop_accuracy [OF q(4) n(2) order_refl this]
  obtain r where r: "factorial_loop (16 * q + 1) (of_int n) (Fin 1) = Fin r" "1 \<le> r"
    "P * lo ^ c \<le> r" "r \<le> P * hi ^ c"
    unfolding c_def [symmetric] P_def [symmetric] lo_def [symmetric] hi_def [symmetric]
    by auto
  from table_accuracy [OF q(1,2)]
  obtain t where t: "array_get everySinxteenthFactorial q = Fin t" "1 \<le> t"
    "G * lo ^ 3 \<le> t" "t \<le> G * hi ^ 3"
    unfolding G_def [symmetric] lo_def [symmetric] hi_def [symmetric] by auto
  have F: "P * G = F"
    unfolding P_def G_def F_def using q(3) by (rule prod_above_fact) (simp add: q(1))
  have G0: "0 < G" and F0: "0 < F" "1 \<le> F"
    by (simp_all add: G_def F_def)
  have P0: "0 \<le> P"
    unfolding P_def using q(1) by (intro prod_nonneg) simp
  have "lo ^ 15 \<le> lo ^ c" "hi ^ c \<le> hi ^ 15"
    using b c by (simp_all add: power_decreasing power_increasing)
  then have "P * lo ^ 15 \<le> P * lo ^ c" "P * hi ^ c \<le> P * hi ^ 15"
    using P0 by (simp_all add: mult_left_mono)
  with r have r': "P * lo ^ 15 \<le> r" "r \<le> P * hi ^ 15"
    by linarith+
  define x where "x = r * t"
  have x1: "1 \<le> x"
    unfolding x_def using r(2) t(2) by (metis mult_mono' mult_1 zero_le_one)
  have "F * lo ^ 18 = (P * lo ^ 15) * (G * lo ^ 3)"
    by (simp add: F [symmetric] mult_ac flip: power_add [of lo 15 3, simplified])
  also have "\<dots> \<le> r * t"
    using r'(1) t(3) r(2) t(2) b P0 G0 by (intro mult_mono) simp_all
  finally have xl: "F * lo ^ 18 \<le> x"
    by (simp add: x_def)
  have "r * t \<le> (P * hi ^ 15) * (G * hi ^ 3)"
    using r'(2) t(4) r(2) t(2) b P0 G0 by (intro mult_mono) simp_all
  also have "\<dots> = F * hi ^ 18"
    by (simp add: F [symmetric] mult_ac flip: power_add [of hi 15 3, simplified])
  finally have xu: "x \<le> F * hi ^ 18"
    by (simp add: x_def)
  have "F \<le> fact 170"
    unfolding F_def using n by (intro fact_mono) simp
  then have "F * hi ^ 18 \<le> fact 170 * 2"
    using unit_roundoff_powers(7) b unfolding hi_def [symmetric]
    by (intro mult_mono) simp_all
  with xu unit_roundoff_powers(9) have x2: "x < 2 ^ 1023"
    by linarith
  obtain v where v: "round_double x = Fin v" "x * lo \<le> v" "v \<le> x * hi"
    using round_double_factor [OF x1 x2] unfolding lo_def hi_def by blast
  have n19: "(19 :: nat) = Suc 18"
    by simp
  have "F * lo ^ 19 = F * lo ^ 18 * lo"
    by (simp only: n19 power_Suc2 mult.assoc)
  also have "\<dots> \<le> x * lo"
    using xl b by (intro mult_right_mono) simp_all
  finally have vl: "F * lo ^ 19 \<le> v"
    using v(2) by linarith
  have "x * hi \<le> F * hi ^ 18 * hi"
    using xu b by (intro mult_right_mono) simp_all
  also have "\<dots> = F * hi ^ 19"
    by (simp only: n19 power_Suc2 mult.assoc)
  finally have vu: "v \<le> F * hi ^ 19"
    using v(3) by linarith
  have ev: "\<bar>v - F\<bar> \<le> F / 2 ^ 48"
    using vl vu unit_roundoff_powers(1,2) F0 unfolding lo_def hi_def
    by (intro relative_error) simp_all
  have er: "\<bar>r - P\<bar> \<le> P / 2 ^ 49"
    using r' unit_roundoff_powers(3,4) P0 unfolding lo_def hi_def
    by (intro relative_error) simp_all
  have et: "\<bar>t - G\<bar> \<le> G / 2 ^ 51"
    using t(3,4) unit_roundoff_powers(5,6) G0 unfolding lo_def hi_def
    by (intro relative_error) simp_all
  have tv: "times_double (Fin r) (Fin t) = Fin v"
    by (simp add: times_double_Fin x_def [symmetric] v(1))
  have "factorial (Fin a) = Inr (times_double (Fin r) (Fin t))"
    using factorial_unfold [OF assms] unfolding n_def [symmetric] q_def [symmetric] r(1) t(1) .
  then have "factorial (Fin a) = Inr (Fin v)"
    by (simp only: tv)
  with r(1) t(1) tv er et ev show ?thesis
    unfolding F_def G_def P_def q_def n_def by blast
qed

lemma factorial_floor:
  assumes "0 \<le> \<lfloor>a\<rfloor>" "\<lfloor>a\<rfloor> \<le> 170"
  shows "factorial (Fin a) = factorial (Fin (of_int \<lfloor>a\<rfloor>))"
proof -
  have "0 \<le> \<lfloor>real_of_int \<lfloor>a\<rfloor>\<rfloor>" "\<lfloor>real_of_int \<lfloor>a\<rfloor>\<rfloor> \<le> 170"
    using assms by simp_all
  from factorial_unfold [OF this] factorial_unfold [OF assms] show ?thesis
    by simp
qed

lemma factorial_exact:
  assumes "0 \<le> \<lfloor>a\<rfloor>" "\<lfloor>a\<rfloor> \<le> 22"
  shows "factorial (Fin a) = Inr (Fin (fact (nat \<lfloor>a\<rfloor>)))"
proof -
  define k where "k = \<lfloor>a\<rfloor>"
  have f: "factorial (Fin a) = factorial (Fin (of_int k))"
    unfolding k_def using assms by (intro factorial_floor) simp_all
  from assms have "k = 0 \<or> k = 1 \<or> k = 2 \<or> k = 3 \<or> k = 4 \<or> k = 5 \<or> k = 6 \<or> k = 7
    \<or> k = 8 \<or> k = 9 \<or> k = 10 \<or> k = 11 \<or> k = 12 \<or> k = 13 \<or> k = 14 \<or> k = 15
    \<or> k = 16 \<or> k = 17 \<or> k = 18 \<or> k = 19 \<or> k = 20 \<or> k = 21 \<or> k = 22"
    unfolding k_def by presburger
  then have "factorial (Fin (of_int k)) = Inr (Fin (fact (nat k)))"
    by (elim disjE) (simp_all add: factorial_values fact_numeral)
  then show ?thesis
    by (simp add: f k_def)
qed

text \<open>
  Claim C9, as stated, has \<open>factorial\<close> return the exact factorial for every argument up
  to 170. The products are rounded to doubles, and \<open>23!\<close> is not a double:
  \<open>factorial 23\<close> is \<open>25852016738884978212864\<close>, the double nearest to
  \<open>23! = 25852016738884976640000\<close>.
\<close>

theorem factorial_23_not_exact:
  "factorial (Fin 23) = Inr (Fin 25852016738884978212864) \<and>
   fact 23 = (25852016738884976640000 :: real) \<and>
   factorial (Fin 23) \<noteq> Inr (Fin (fact 23))"
  by (simp add: factorial_values fact_numeral)

text \<open>
  Claim C9, amended. \<open>factorial\<close> throws for every negative argument (\<open>-\<infinity>\<close> included),
  returns NaN on NaN and \<open>+\<infinity>\<close> when the floor of the argument exceeds 170. For an
  argument \<open>a\<close> with \<open>0 \<le> \<lfloor>a\<rfloor> \<le> 170\<close> it returns a finite \<open>v\<close>, the rounded product of the
  value \<open>r\<close> of the loop and the entry \<open>t\<close> of the table at \<open>\<lfloor>a\<rfloor> div 16\<close>, where \<open>r\<close> is the
  product of the integers from \<open>16 * (\<lfloor>a\<rfloor> div 16) + 1\<close> to \<open>\<lfloor>a\<rfloor>\<close> up to a relative error of
  \<open>2\<close> to the power \<open>-49\<close>, \<open>t\<close> is the factorial of \<open>16 * (\<lfloor>a\<rfloor> div 16)\<close> up to a relative error
  of \<open>2\<close> to the power \<open>-51\<close>, and \<open>v\<close> is \<open>\<lfloor>a\<rfloor>!\<close> up to a relative error of \<open>2\<close> to the power
  \<open>-48\<close>. For an argument \<open>b\<close> with \<open>0 \<le> \<lfloor>b\<rfloor> \<le> 22\<close> the result is exactly \<open>\<lfloor>b\<rfloor>!\<close>.
\<close>

theorem factorial_contract:
  "x < Fin 0 \<Longrightarrow> Fin 170 < Math_floor y \<Longrightarrow>
   0 \<le> \<lfloor>a\<rfloor> \<Longrightarrow> \<lfloor>a\<rfloor> \<le> 170 \<Longrightarrow> 0 \<le> \<lfloor>b\<rfloor> \<Longrightarrow> \<lfloor>b\<rfloor> \<le> 22 \<Longrightarrow>
   isl (factorial x) \<and>
   factorial NaN = Inr NaN \<and>
   factorial y = Inr PInf \<and>
   (\<exists>r t v.
      factorial_loop (16 * (\<lfloor>a\<rfloor> div 16) + 1) (of_int \<lfloor>a\<rfloor>) (Fin 1) = Fin r \<and>
      array_get everySinxteenthFactorial (\<lfloor>a\<rfloor> div 16) = Fin t \<and>
      times_double (Fin r) (Fin t) = Fin v \<and>
      factorial (Fin a) = Inr (Fin v) \<and>
      \<bar>r - (\<Prod>j = 16 * (\<lfloor>a\<rfloor> div 16) + 1..\<lfloor>a\<rfloor>. of_int j)\<bar> \<le>
        (\<Prod>j = 16 * (\<lfloor>a\<rfloor> div 16) + 1..\<lfloor>a\<rfloor>. of_int j) / 2 ^ 49 \<and>
      \<bar>t - fact (nat (16 * (\<lfloor>a\<rfloor> div 16)))\<bar> \<le> fact (nat (16 * (\<lfloor>a\<rfloor> div 16))) / 2 ^ 51 \<and>
      \<bar>v - fact (nat \<lfloor>a\<rfloor>)\<bar> \<le> fact (nat \<lfloor>a\<rfloor>) / 2 ^ 48) \<and>
   factorial (Fin b) = Inr (Fin (fact (nat \<lfloor>b\<rfloor>)))"
  using factorial_negative [of x] factorial_NaN factorial_overflow [of y]
    factorial_accuracy [of a] factorial_exact [of b]
  by blast

theorem factorial_contract_witness:
  "Fin (- 1) < Fin 0 \<and> Fin 170 < Math_floor (Fin 171) \<and>
   0 \<le> \<lfloor>170 :: real\<rfloor> \<and> \<lfloor>170 :: real\<rfloor> \<le> 170 \<and> 0 \<le> \<lfloor>5 :: real\<rfloor> \<and> \<lfloor>5 :: real\<rfloor> \<le> 22 \<and>
   isl (factorial (Fin (- 1))) \<and>
   isl (factorial NInf) \<and>
   factorial (Fin 171) = Inr PInf \<and>
   factorial PInf = Inr PInf \<and>
   factorial (Fin 0) = Inr (Fin 1) \<and>
   factorial (Fin 5) = Inr (Fin 120) \<and>
   factorial (Fin 22) = Inr (Fin 1124000727777607680000) \<and>
   (\<exists>v. factorial (Fin 170) = Inr (Fin v) \<and> \<bar>v - fact 170\<bar> \<le> fact 170 / 2 ^ 48)"
proof -
  have h: "Fin (- 1) < Fin 0" "NInf < Fin 0" "Fin 170 < Math_floor (Fin 171)"
    "Fin 170 < Math_floor PInf"
    by simp_all
  have a: "0 \<le> \<lfloor>170 :: real\<rfloor>" "\<lfloor>170 :: real\<rfloor> \<le> 170"
    by simp_all
  have b: "0 \<le> \<lfloor>5 :: real\<rfloor>" "\<lfloor>5 :: real\<rfloor> \<le> 22" "0 \<le> \<lfloor>0 :: real\<rfloor>" "\<lfloor>0 :: real\<rfloor> \<le> 22"
    "0 \<le> \<lfloor>22 :: real\<rfloor>" "\<lfloor>22 :: real\<rfloor> \<le> 22"
    by simp_all
  note c1 = factorial_contract [OF h(1) h(3) a b(1,2)]
  note c2 = factorial_contract [OF h(2) h(4) a b(3,4)]
  note c3 = factorial_contract [OF h(1) h(3) a b(5,6)]
  from c1 have "\<exists>v. factorial (Fin 170) = Inr (Fin v) \<and>
      \<bar>v - fact (nat \<lfloor>170 :: real\<rfloor>)\<bar> \<le> fact (nat \<lfloor>170 :: real\<rfloor>) / 2 ^ 48"
    by blast
  then have e: "\<exists>v. factorial (Fin 170) = Inr (Fin v) \<and> \<bar>v - fact 170\<bar> \<le> fact 170 / 2 ^ 48"
    by simp
  from c1 have "isl (factorial (Fin (- 1)))" "factorial (Fin 171) = Inr PInf"
    "factorial (Fin 5) = Inr (Fin (fact (nat \<lfloor>5 :: real\<rfloor>)))"
    by blast+
  moreover from c2 have "isl (factorial NInf)" "factorial PInf = Inr PInf"
    "factorial (Fin 0) = Inr (Fin (fact (nat \<lfloor>0 :: real\<rfloor>)))"
    by blast+
  moreover from c3 have "factorial (Fin 22) = Inr (Fin (fact (nat \<lfloor>22 :: real\<rfloor>)))"
    by blast
  ultimately show ?thesis
    using h a b e by (simp add: fact_numeral)
qed

section \<open>The range of the approximations\<close>

lemma Math_pow_Fin: "Math_pow (Fin a) n = Fin (a ^ n)"
  by (cases n) simp_all

lemma Math_pow_PInf: "Math_pow PInf n = (if n = 0 then Fin 1 else PInf)"
  by (cases n) simp_all

lemma taylorErf_10:
  "taylorErf (Fin 10) taylorErf_default_degree =
     Inr (Fin (8737797970510540097345034359848750665583321046069661459363248164425442496040062954908439302348208157873140293870108350202166342097905874713228020064352113764366055041737703043066561854190066042186996677890189056318885775339339576955639507313737615252302747707250495024425291474666160657735426629961246972507496954480589792493556332141815053 /
               723167245160452728575877351887646645550025404252055690364488514480783443647039292660125056356449131990414958476093391609022115330706795915179546687020610800888245654819495512966637214868589645376620325394991158837994171839531239256551309529868232099189936007244919925248075339600044640622870528000000000000000))"
  by (simp add: taylorErf_def taylorErf_default_degree_def Math_pow_Fin factorial_values Let_def)

lemma taylorErf_PInf: "taylorErf PInf taylorErf_default_degree = Inr NaN"
  by (simp add: taylorErf_def taylorErf_default_degree_def Math_pow_Fin Math_pow_PInf
      factorial_values Let_def sign_inf_def)

text \<open>
  Claim C5, as stated, includes the Taylor approximation. With the default degree its value
  at 10 is the polynomial's, about \<open>1.2 * 10 ^ 31\<close>; at \<open>+\<infinity>\<close> its sum adds \<open>-\<infinity>\<close> and then \<open>+\<infinity>\<close>,
  so the result is NaN. Neither is in \<open>[-1, 1]\<close>.
\<close>

theorem taylorErf_out_of_range:
  "taylorErf (Fin 10) taylorErf_default_degree =
     Inr (Fin (8737797970510540097345034359848750665583321046069661459363248164425442496040062954908439302348208157873140293870108350202166342097905874713228020064352113764366055041737703043066561854190066042186996677890189056318885775339339576955639507313737615252302747707250495024425291474666160657735426629961246972507496954480589792493556332141815053 /
               723167245160452728575877351887646645550025404252055690364488514480783443647039292660125056356449131990414958476093391609022115330706795915179546687020610800888245654819495512966637214868589645376620325394991158837994171839531239256551309529868232099189936007244919925248075339600044640622870528000000000000000)) \<and>
   \<not> Fin (8737797970510540097345034359848750665583321046069661459363248164425442496040062954908439302348208157873140293870108350202166342097905874713228020064352113764366055041737703043066561854190066042186996677890189056318885775339339576955639507313737615252302747707250495024425291474666160657735426629961246972507496954480589792493556332141815053 /
          723167245160452728575877351887646645550025404252055690364488514480783443647039292660125056356449131990414958476093391609022115330706795915179546687020610800888245654819495512966637214868589645376620325394991158837994171839531239256551309529868232099189936007244919925248075339600044640622870528000000000000000) \<le> Fin 1 \<and>
   taylorErf PInf taylorErf_default_degree = Inr NaN \<and>
   \<not> (Fin (- 1) \<le> NaN \<and> NaN \<le> Fin 1)"
  using taylorErf_10 taylorErf_PInf by simp

text \<open>
  Claim C5, amended. For every input that is a number, finite or infinite, each of
  \<open>chebyshevErf\<close>, \<open>vazquezLealErf\<close> and \<open>soranzoErf\<close> returns a value in \<open>[-1, 1]\<close>.
\<close>

theorem erf_ranges:
  "x \<noteq> NaN \<Longrightarrow>
   (Fin (- 1) \<le> chebyshevErf x \<and> chebyshevErf x \<le> Fin 1) \<and>
   (Fin (- 1) \<le> vazquezLealErf x \<and> vazquezLealErf x \<le> Fin 1) \<and>
   (Fin (- 1) \<le> soranzoErf x \<and> soranzoErf x \<le> Fin 1)"
  using chebyshevErf_range [of x] vazquezLealErf_range [of x] soranzoErf_range [of x]
  by blast

theorem erf_ranges_witness:
  "Fin 3 \<noteq> NaN \<and>
   (Fin (- 1) \<le> chebyshevErf (Fin 3) \<and> chebyshevErf (Fin 3) \<le> Fin 1) \<and>
   (Fin (- 1) \<le> vazquezLealErf (Fin 3) \<and> vazquezLealErf (Fin 3) \<le> Fin 1) \<and>
   (Fin (- 1) \<le> soranzoErf (Fin 3) \<and> soranzoErf (Fin 3) \<le> Fin 1)"
  using erf_ranges [of "Fin 3"] by simp

section \<open>acklamIerfc and its description\<close>




end
